theory Spec2Isabelle
  imports Complex_Main "HOL-Library.List_Lexorder" "HOL-Library.Multiset"
begin

section \<open>Values, errors and files\<close>

text \<open>
  The module \<^verbatim>\<open>pharm/foundational_pharm.py\<close> holds closed-form pharmacokinetic formulas
  and two lookups that read a JSON file on every call.

  A Python string is the list of its code points, each a natural number. The arguments and
  results of the formulas are Python floats: binary64 values with signed zeros, infinities
  and NaN, every operation rounded to the nearest value, ties to even. The numbers of a
  JSON file and the concentration that the range checker compares with them are the real
  numbers they denote: the comparison \<^verbatim>\<open><=\<close> of two finite floats is exact.
\<close>

type_synonym pystr = "nat list"

text \<open>A string literal of the source: the code points of its characters.\<close>

definition str :: "string \<Rightarrow> pystr" where
  "str s = map of_char s"

text \<open>
  Every exception the modelled code can raise. \<open>MissingDatabase p\<close> is
  \<^verbatim>\<open>Exception(f"Database file '{db_file}' not found.")\<close> and \<open>UnknownDrug n\<close> is
  \<^verbatim>\<open>ValueError(f"Therapeutic range for drug '{drug_name}' not found in database.")\<close>, the two
  exceptions the module raises itself. The others are raised by the interpreter or the
  library and propagate unchanged: nothing in the module catches them.
\<close>

datatype py_error =
    MissingDatabase pystr
  | UnknownDrug pystr
  | ZeroDivisionError
  | TypeError
  | ValueError
  | AttributeError
  | KeyError
  | JSONDecodeError
  | OSError

text \<open>
  Python values as far as the lookups handle them. \<^verbatim>\<open>json.load\<close> returns \<open>None\<close>, booleans,
  numbers, strings, lists and dictionaries whose keys are strings; the interaction checker
  builds tuples of strings.
\<close>

datatype pyval =
    PNone
  | PBool bool
  | PNum real
  | PStr pystr
  | PList "pyval list"
  | PTuple "pyval list"
  | PDict "(pyval \<times> pyval) list"

text \<open>
  A parsed JSON document, and the Python value \<^verbatim>\<open>json.load\<close> makes of it. An object is
  the list of its members as \<^verbatim>\<open>json.load\<close> keeps them: where a name repeats, the member
  that counts stands first.
\<close>

datatype json =
    JNull
  | JBool bool
  | JNum real
  | JStr pystr
  | JArr "json list"
  | JObj "(pystr \<times> json) list"

fun of_json :: "json \<Rightarrow> pyval" where
  "of_json JNull = PNone"
| "of_json (JBool b) = PBool b"
| "of_json (JNum x) = PNum x"
| "of_json (JStr s) = PStr s"
| "of_json (JArr xs) = PList (map of_json xs)"
| "of_json (JObj kvs) = PDict (map (\<lambda>kv. (PStr (fst kv), of_json (snd kv))) kvs)"

text \<open>
  What \<^verbatim>\<open>open(db_file, 'r')\<close> followed by \<^verbatim>\<open>json.load(f)\<close> finds at a path: no file
  (\<^verbatim>\<open>FileNotFoundError\<close>), a path that cannot be opened for another reason (another
  \<^verbatim>\<open>OSError\<close>), a file that is not a JSON document, or a JSON document.
\<close>

datatype file_state = Absent | Unreadable | Malformed | Content json

type_synonym files = "pystr \<Rightarrow> file_state"

text \<open>
  The \<^verbatim>\<open>try\<close> block both lookups start with: only \<^verbatim>\<open>FileNotFoundError\<close> is caught and
  replaced; every other failure propagates.
\<close>

definition load_db :: "pystr \<Rightarrow> files \<Rightarrow> py_error + pyval" where
  "load_db db_file fs =
     (case fs db_file of
        Absent \<Rightarrow> Inl (MissingDatabase db_file)
      | Unreadable \<Rightarrow> Inl OSError
      | Malformed \<Rightarrow> Inl JSONDecodeError
      | Content j \<Rightarrow> Inr (of_json j))"

subsection \<open>Lowercasing\<close>

text \<open>
  \<^verbatim>\<open>str.lower\<close> follows the case mappings of the Unicode character database, which are
  not those of one character at a time (a capital sigma depends on its position, a capital
  I with dot above becomes two code points). On a string of ASCII characters it replaces
  each of the letters A to Z (code points 65 to 90) by the letter 32 code points above it
  and keeps every other character. On any other string it is the parameter \<open>ucd\<close>, the
  mapping of the Unicode tables, of which nothing is assumed.
\<close>

definition ascii :: "pystr \<Rightarrow> bool" where
  "ascii s = list_all (\<lambda>c. c < 128) s"

definition lower_ascii :: "nat \<Rightarrow> nat" where
  "lower_ascii c = (if 65 \<le> c \<and> c \<le> 90 then c + 32 else c)"

definition lower :: "(pystr \<Rightarrow> pystr) \<Rightarrow> pystr \<Rightarrow> pystr" where
  "lower ucd s = (if ascii s then map lower_ascii s else ucd s)"

text \<open>A string that holds one of the letters A to Z.\<close>

definition has_capital :: "pystr \<Rightarrow> bool" where
  "has_capital s = list_ex (\<lambda>c. 65 \<le> c \<and> c \<le> 90) s"

section \<open>Floats\<close>

text \<open>
  Rounding to the nearest integer, a tie to the even one.
\<close>

definition round_half_even :: "real \<Rightarrow> int" where
  "round_half_even x =
     (let f = \<lfloor>x\<rfloor>; d = x - of_int f
      in if d < 1 / 2 then f else if 1 / 2 < d then f + 1 else if even f then f else f + 1)"

text \<open>
  The binary64 values around a real \<open>x \<noteq> 0\<close> are the integer multiples of \<open>2 powi binade x\<close>:
  53 significant bits for a normal number (\<open>2 powi (- 1022) \<le> \<bar>x\<bar>\<close>), multiples of
  \<open>2 powi (- 1074)\<close> below. \<open>round64 x\<close> is the nearest of them, a tie going to the even
  multiple; the range is not yet bounded here.
\<close>

definition binade :: "real \<Rightarrow> int" where
  "binade x = max \<lfloor>log 2 \<bar>x\<bar>\<rfloor> (- 1022) - 52"

definition round64 :: "real \<Rightarrow> real" where
  "round64 x =
     (if x = 0 then 0
      else of_int (round_half_even (x / 2 powi binade x)) * 2 powi binade x)"

text \<open>
  A Python float: a nonzero finite value or positive zero (\<open>Finite\<close>), negative zero, the
  two infinities, NaN.
\<close>

datatype pyfloat = Finite real | NegZero | PosInf | NegInf | NaN

definition is_zero :: "pyfloat \<Rightarrow> bool" where
  "is_zero x = (x = Finite 0 \<or> x = NegZero)"

definition is_inf :: "pyfloat \<Rightarrow> bool" where
  "is_inf x = (x = PosInf \<or> x = NegInf)"


text \<open>The sign bit.\<close>

definition negative :: "pyfloat \<Rightarrow> bool" where
  "negative x = (case x of Finite r \<Rightarrow> r < 0 | NegZero \<Rightarrow> True | NegInf \<Rightarrow> True | _ \<Rightarrow> False)"

definition value_of :: "pyfloat \<Rightarrow> real" where
  "value_of x = (case x of Finite r \<Rightarrow> r | _ \<Rightarrow> 0)"

definition signed_inf :: "bool \<Rightarrow> pyfloat" where
  "signed_inf s = (if s then NegInf else PosInf)"

definition signed_zero :: "bool \<Rightarrow> pyfloat" where
  "signed_zero s = (if s then NegZero else Finite 0)"

text \<open>
  The float an exact result \<open>r\<close> with sign \<open>s\<close> is delivered as: the rounded value, an
  infinity when that is \<open>2 powi 1024\<close> or beyond, a zero of the sign when it is 0.
\<close>

definition mk_float :: "bool \<Rightarrow> real \<Rightarrow> pyfloat" where
  "mk_float s r =
     (let y = round64 r
      in if 2 powi 1024 \<le> \<bar>y\<bar> then signed_inf s
         else if y = 0 then signed_zero s
         else Finite y)"

text \<open>A decimal literal of the source, such as \<^verbatim>\<open>0.693\<close>.\<close>

definition float_lit :: "real \<Rightarrow> pyfloat" where
  "float_lit r = mk_float (r < 0) r"

text \<open>\<^verbatim>\<open>a * b\<close> on floats.\<close>

definition float_mul :: "pyfloat \<Rightarrow> pyfloat \<Rightarrow> pyfloat" where
  "float_mul a b =
     (if a = NaN \<or> b = NaN then NaN
      else if is_inf a \<or> is_inf b
      then (if is_zero a \<or> is_zero b then NaN else signed_inf (negative a \<noteq> negative b))
      else mk_float (negative a \<noteq> negative b) (value_of a * value_of b))"

text \<open>
  \<^verbatim>\<open>a / b\<close> on floats: Python raises \<^verbatim>\<open>ZeroDivisionError\<close> for a divisor that is a zero of
  either sign, whatever the dividend.
\<close>

definition float_div :: "pyfloat \<Rightarrow> pyfloat \<Rightarrow> py_error + pyfloat" where
  "float_div a b =
     (if is_zero b then Inl ZeroDivisionError
      else Inr
        (if a = NaN \<or> b = NaN then NaN
         else if is_inf a
         then (if is_inf b then NaN else signed_inf (negative a \<noteq> negative b))
         else if is_inf b then signed_zero (negative a \<noteq> negative b)
         else mk_float (negative a \<noteq> negative b) (value_of a / value_of b)))"

text \<open>
  \<^verbatim>\<open>a - b\<close> on floats. An exact difference of 0 is positive zero, except for negative zero
  minus positive zero.
\<close>

definition float_sub :: "pyfloat \<Rightarrow> pyfloat \<Rightarrow> pyfloat" where
  "float_sub a b =
     (if a = NaN \<or> b = NaN then NaN
      else if is_inf a then (if b = a then NaN else a)
      else if is_inf b then signed_inf (\<not> negative b)
      else if value_of a - value_of b = 0 then signed_zero (a = NegZero \<and> b = Finite 0)
      else mk_float (value_of a - value_of b < 0) (value_of a - value_of b))"

section \<open>Pharmacokinetic formulas\<close>



text \<open>
  In \<^verbatim>\<open>1 - (liver_function_score / max_score) * 0.5\<close> the integer 1 is converted to the
  float 1.0 before the subtraction.
\<close>

definition adjust_dose_for_liver_function ::
  "pyfloat \<Rightarrow> pyfloat \<Rightarrow> pyfloat \<Rightarrow> py_error + pyfloat" where
  "adjust_dose_for_liver_function dose liver_function_score max_score =
     (case float_div liver_function_score max_score of
        Inl e \<Rightarrow> Inl e
      | Inr q \<Rightarrow>
          (let adjustment_factor = float_sub (Finite 1) (float_mul q (float_lit 0.5))
           in Inr (float_mul dose adjustment_factor)))"

text \<open>The default values of the optional parameters.\<close>

definition default_max_score :: pyfloat where
  "default_max_score = float_lit 15.0"

definition therapeutic_ranges_json :: pystr where
  "therapeutic_ranges_json = str ''therapeutic_ranges.json''"

definition drug_interactions_json :: pystr where
  "drug_interactions_json = str ''drug_interactions.json''"

section \<open>Therapeutic range checker\<close>

text \<open>
  \<^verbatim>\<open>therapeutic_ranges.get(key)\<close> with a string key: only a dictionary has the method
  (anything else raises \<^verbatim>\<open>AttributeError\<close>), and a key that is not in the dictionary gives
  \<open>None\<close>. A dictionary is the list of its items; where a key stands twice, the first item
  is the one that counts.
\<close>

definition py_get :: "pyval \<Rightarrow> pystr \<Rightarrow> py_error + pyval" where
  "py_get d k =
     (case d of
        PDict kvs \<Rightarrow> Inr (case map_of kvs (PStr k) of None \<Rightarrow> PNone | Some v \<Rightarrow> v)
      | _ \<Rightarrow> Inl AttributeError)"

text \<open>
  The elements a value yields when it is iterated: a list or tuple its elements, a string
  its characters, a dictionary its keys; \<open>None\<close>, a boolean and a number are not iterable.
\<close>

definition py_iter :: "pyval \<Rightarrow> py_error + pyval list" where
  "py_iter v =
     (case v of
        PList xs \<Rightarrow> Inr xs
      | PTuple xs \<Rightarrow> Inr xs
      | PStr s \<Rightarrow> Inr (map (\<lambda>c. PStr [c]) s)
      | PDict kvs \<Rightarrow> Inr (remdups (map fst kvs))
      | _ \<Rightarrow> Inl TypeError)"

text \<open>
  \<^verbatim>\<open>lower, upper = range_data\<close>: the value must be iterable and yield exactly two elements
  (\<^verbatim>\<open>ValueError\<close> for too few or too many).
\<close>

definition unpack2 :: "pyval \<Rightarrow> py_error + pyval \<times> pyval" where
  "unpack2 v =
     (case py_iter v of
        Inl e \<Rightarrow> Inl e
      | Inr xs \<Rightarrow> if length xs = 2 then Inr (xs ! 0, xs ! 1) else Inl ValueError)"

text \<open>
  The number a value counts as in a comparison with a float: a number itself, a boolean as
  0 or 1 (\<^verbatim>\<open>bool\<close> is a subclass of \<^verbatim>\<open>int\<close>); nothing else compares with a float.
\<close>

definition num_of :: "pyval \<Rightarrow> real option" where
  "num_of v =
     (case v of
        PNum x \<Rightarrow> Some x
      | PBool b \<Rightarrow> Some (if b then 1 else 0)
      | _ \<Rightarrow> None)"

text \<open>\<^verbatim>\<open>a <= b\<close> where one of the operands is a float.\<close>

definition py_le :: "pyval \<Rightarrow> pyval \<Rightarrow> py_error + bool" where
  "py_le a b =
     (case num_of a of
        None \<Rightarrow> Inl TypeError
      | Some x \<Rightarrow> (case num_of b of None \<Rightarrow> Inl TypeError | Some y \<Rightarrow> Inr (x \<le> y)))"

text \<open>
  The parameter \<open>patient_data\<close> is accepted and never read. The chained comparison
  \<^verbatim>\<open>lower <= concentration <= upper\<close> evaluates its second half only when the first is true.
\<close>

definition is_within_therapeutic_range ::
  "(pystr \<Rightarrow> pystr) \<Rightarrow> real \<Rightarrow> pystr \<Rightarrow> pyval \<Rightarrow> pystr \<Rightarrow> files \<Rightarrow> py_error + bool" where
  "is_within_therapeutic_range ucd concentration drug_name patient_data db_file fs =
     (case load_db db_file fs of
        Inl e \<Rightarrow> Inl e
      | Inr therapeutic_ranges \<Rightarrow>
          (case py_get therapeutic_ranges (lower ucd drug_name) of
             Inl e \<Rightarrow> Inl e
           | Inr range_data \<Rightarrow>
               if range_data = PNone then Inl (UnknownDrug drug_name)
               else
                 (case unpack2 range_data of
                    Inl e \<Rightarrow> Inl e
                  | Inr (lower_bound, upper_bound) \<Rightarrow>
                      (case py_le lower_bound (PNum concentration) of
                         Inl e \<Rightarrow> Inl e
                       | Inr below \<Rightarrow>
                           if below then py_le (PNum concentration) upper_bound
                           else Inr False))))"

section \<open>Interaction checker\<close>

text \<open>
  \<^verbatim>\<open>tuple(sorted([drug_list[i].lower(), drug_list[j].lower()]))\<close>: strings are ordered by
  their code points, the first difference deciding.
\<close>

definition pair_key :: "(pystr \<Rightarrow> pystr) \<Rightarrow> pystr \<Rightarrow> pystr \<Rightarrow> pyval" where
  "pair_key ucd a b = PTuple (map PStr (sort [lower ucd a, lower ucd b]))"

text \<open>
  \<^verbatim>\<open>pair in interaction_pairs\<close> for a tuple of strings \<open>pair\<close>: membership among the keys of a
  dictionary or the elements of a list or tuple. A tuple of strings is equal to a value
  exactly when the value is a tuple of the same strings, so equality is that of
  \<^typ>\<open>pyval\<close>. A string accepts only a string on the left, and \<open>None\<close>, booleans and numbers
  are no containers: \<^verbatim>\<open>TypeError\<close>.
\<close>

definition py_in :: "pyval \<Rightarrow> pyval \<Rightarrow> py_error + bool" where
  "py_in pair container =
     (case container of
        PDict kvs \<Rightarrow> Inr (pair \<in> set (map fst kvs))
      | PList xs \<Rightarrow> Inr (pair \<in> set xs)
      | PTuple xs \<Rightarrow> Inr (pair \<in> set xs)
      | _ \<Rightarrow> Inl TypeError)"

text \<open>
  \<^verbatim>\<open>interaction_pairs[pair]\<close> for a tuple \<open>pair\<close>: the value of the key in a dictionary
  (\<^verbatim>\<open>KeyError\<close> without the key); a list, tuple or string takes integer indices only, and
  nothing else is subscriptable: \<^verbatim>\<open>TypeError\<close>.
\<close>

definition py_getitem :: "pyval \<Rightarrow> pyval \<Rightarrow> py_error + pyval" where
  "py_getitem container pair =
     (case container of
        PDict kvs \<Rightarrow> (case map_of kvs pair of None \<Rightarrow> Inl KeyError | Some v \<Rightarrow> Inr v)
      | _ \<Rightarrow> Inl TypeError)"

text \<open>
  One interaction found by the loops: the two names as the caller wrote them and the
  table's value for their key.
\<close>

type_synonym hit = "pystr \<times> pystr \<times> pyval"

text \<open>
  The inner loop \<^verbatim>\<open>for j in range(i + 1, len(drug_list))\<close>: \<open>a\<close> is \<^verbatim>\<open>drug_list[i]\<close> and
  the list holds the entries after position \<open>i\<close>.
\<close>

fun interactions_from ::
  "(pystr \<Rightarrow> pystr) \<Rightarrow> pyval \<Rightarrow> pystr \<Rightarrow> pystr list \<Rightarrow> py_error + hit list" where
  "interactions_from ucd interaction_pairs a [] = Inr []"
| "interactions_from ucd interaction_pairs a (b # bs) =
     (case py_in (pair_key ucd a b) interaction_pairs of
        Inl e \<Rightarrow> Inl e
      | Inr found \<Rightarrow>
          if found
          then
            (case py_getitem interaction_pairs (pair_key ucd a b) of
               Inl e \<Rightarrow> Inl e
             | Inr v \<Rightarrow>
                 (case interactions_from ucd interaction_pairs a bs of
                    Inl e \<Rightarrow> Inl e
                  | Inr hs \<Rightarrow> Inr ((a, b, v) # hs)))
          else interactions_from ucd interaction_pairs a bs)"

text \<open>The outer loop \<^verbatim>\<open>for i in range(len(drug_list))\<close>.\<close>

fun interactions_among ::
  "(pystr \<Rightarrow> pystr) \<Rightarrow> pyval \<Rightarrow> pystr list \<Rightarrow> py_error + hit list" where
  "interactions_among ucd interaction_pairs [] = Inr []"
| "interactions_among ucd interaction_pairs (a # as) =
     (case interactions_from ucd interaction_pairs a as of
        Inl e \<Rightarrow> Inl e
      | Inr h \<Rightarrow>
          (case interactions_among ucd interaction_pairs as of
             Inl e \<Rightarrow> Inl e
           | Inr hs \<Rightarrow> Inr (h @ hs)))"

text \<open>
  A value inside an f-string: a string is inserted as it is. How Python prints any other
  value (the digits of a number, the brackets of a list) is the parameter \<open>fmt\<close>.
\<close>

definition py_format :: "(pyval \<Rightarrow> pystr) \<Rightarrow> pyval \<Rightarrow> pystr" where
  "py_format fmt v = (case v of PStr s \<Rightarrow> s | _ \<Rightarrow> fmt v)"

text \<open>
  \<^verbatim>\<open>f"Interaction between {drug_list[i]} and {drug_list[j]}: {interaction_pairs[pair]}"\<close>
\<close>

definition describe :: "(pyval \<Rightarrow> pystr) \<Rightarrow> hit \<Rightarrow> pystr" where
  "describe fmt h =
     (case h of (a, b, v) \<Rightarrow>
        str ''Interaction between '' @ a @ str '' and '' @ b @ str '': '' @ py_format fmt v)"

text \<open>
  The loops append one description per hit, in the order of the hits; formatting a hit
  cannot fail, so the list of descriptions is the list of hits, each formatted.
\<close>

definition check_interactions ::
  "(pystr \<Rightarrow> pystr) \<Rightarrow> (pyval \<Rightarrow> pystr) \<Rightarrow> pystr list \<Rightarrow> pystr \<Rightarrow> files
     \<Rightarrow> py_error + pystr list" where
  "check_interactions ucd fmt drug_list db_file fs =
     (case load_db db_file fs of
        Inl e \<Rightarrow> Inl e
      | Inr interaction_pairs \<Rightarrow>
          (case interactions_among ucd interaction_pairs drug_list of
             Inl e \<Rightarrow> Inl e
           | Inr hs \<Rightarrow> Inr (map (describe fmt) hs)))"

section \<open>The files of the module's tests\<close>

text \<open>
  The files the module's own unit tests write before they call the two lookups:
  \<^verbatim>\<open>json.dump({"drug_a": [5.0, 15.0]}, f)\<close> into \<^verbatim>\<open>therapeutic_ranges.json\<close> and
  \<^verbatim>\<open>json.dump({"drug_a,drug_b": "Increased risk of toxicity"}, f)\<close> into
  \<^verbatim>\<open>drug_interactions.json\<close>.
\<close>

definition test_files :: files where
  "test_files p =
     (if p = therapeutic_ranges_json
      then Content (JObj [(str ''drug_a'', JArr [JNum 5, JNum 15])])
      else if p = drug_interactions_json
      then Content (JObj [(str ''drug_a,drug_b'', JStr (str ''Increased risk of toxicity''))])
      else Absent)"

section \<open>Properties of the float operations\<close>

text \<open>Rounding to the nearest integer: the integer a real lies next to, and the error.\<close>

lemma rhe_below: "of_int n \<le> y \<Longrightarrow> y < of_int n + 1 / 2 \<Longrightarrow> round_half_even y = n"
proof -
  assume a: "of_int n \<le> y" "y < of_int n + 1 / 2"
  then have "\<lfloor>y\<rfloor> = n" by (intro floor_unique) auto
  with a show ?thesis by (simp add: round_half_even_def Let_def)
qed

lemma rhe_above: "of_int n - 1 / 2 < y \<Longrightarrow> y < of_int n \<Longrightarrow> round_half_even y = n"
proof -
  assume a: "of_int n - 1 / 2 < y" "y < of_int n"
  then have "\<lfloor>y\<rfloor> = n - 1" by (intro floor_unique) auto
  with a show ?thesis by (simp add: round_half_even_def Let_def)
qed

lemma rhe_tie: "y = of_int n + 1 / 2 \<Longrightarrow> round_half_even y = (if even n then n else n + 1)"
proof -
  assume a: "y = of_int n + 1 / 2"
  then have "\<lfloor>y\<rfloor> = n" by (intro floor_unique) auto
  with a show ?thesis by (simp add: round_half_even_def Let_def)
qed

lemma rhe_of_int [simp]: "round_half_even (of_int n) = n"
  by (rule rhe_below) auto

lemma rhe_error: "\<bar>of_int (round_half_even y) - y\<bar> \<le> 1 / 2"
proof -
  have f: "of_int \<lfloor>y\<rfloor> \<le> y" "y < of_int \<lfloor>y\<rfloor> + 1" by linarith+
  then show ?thesis
    by (auto simp add: round_half_even_def Let_def)
qed

lemma rhe_zero_iff: "round_half_even y = 0 \<longleftrightarrow> \<bar>y\<bar> \<le> 1 / 2"
proof
  assume "round_half_even y = 0"
  with rhe_error [of y] show "\<bar>y\<bar> \<le> 1 / 2" by simp
next
  assume a: "\<bar>y\<bar> \<le> 1 / 2"
  consider "y = 1 / 2" | "y = - 1 / 2" | "0 \<le> y" "y < 1 / 2" | "- 1 / 2 < y" "y < 0"
    using a by fastforce
  then show "round_half_even y = 0"
  proof cases
    case 1
    then show ?thesis using rhe_tie [of y 0] by simp
  next
    case 2
    then show ?thesis using rhe_tie [of y "- 1"] by simp
  next
    case 3
    then show ?thesis using rhe_below [of 0 y] by simp
  next
    case 4
    then show ?thesis using rhe_above [of 0 y] by simp
  qed
qed

lemma rhe_near:
  assumes "of_int n - 1 / 2 < y" "y < of_int n + 1 / 2"
  shows "round_half_even y = n"
proof (cases "y < of_int n")
  case True
  with assms show ?thesis by (intro rhe_above)
next
  case False
  with assms show ?thesis by (intro rhe_below) auto
qed

text \<open>Powers of 2 are ordered as their exponents.\<close>

lemma two_powi_less_iff [simp]: "(2::real) powi a < 2 powi b \<longleftrightarrow> a < b"
proof
  assume l: "(2::real) powi a < 2 powi b"
  show "a < b"
  proof (rule ccontr)
    assume "\<not> a < b"
    then have "(2::real) powi b \<le> 2 powi a" by (intro power_int_increasing) auto
    with l show False by simp
  qed
next
  assume "a < b"
  then show "(2::real) powi a < 2 powi b" by (intro power_int_strict_increasing) auto
qed

lemma two_powi_le_iff [simp]: "(2::real) powi a \<le> 2 powi b \<longleftrightarrow> a \<le> b"
  using two_powi_less_iff [of b a] by (simp only: linorder_not_less [symmetric])

lemma two_powi_pos [simp]: "0 < (2::real) powi a"
  by (simp add: zero_less_power_int)

lemma two_powi_not_le_0 [simp]: "\<not> (2::real) powi a \<le> 0"
  using two_powi_pos [of a] by linarith

lemma two_powi_not_less_0 [simp]: "\<not> (2::real) powi a < 0"
  using two_powi_pos [of a] by linarith

text \<open>
  The exponent of a real: \<open>binade\<close> is 52 below the power of 2 at or under a normal number,
  and \<open>- 1074\<close> for every subnormal one.
\<close>

lemma floor_log2_eq:
  "0 < y \<Longrightarrow> \<lfloor>log 2 y\<rfloor> = k \<longleftrightarrow> 2 powi k \<le> y \<and> y < 2 powi (k + 1)"
  using floor_log_eq_powr_iff [of y 2 k] powr_real_of_int' [of 2 k] powr_real_of_int' [of 2 "k + 1"]
  by simp

lemma binade_normal:
  assumes "2 powi L \<le> \<bar>x\<bar>" "\<bar>x\<bar> < 2 powi (L + 1)" "- 1022 \<le> L"
  shows "binade x = L - 52"
proof -
  have "0 < \<bar>x\<bar>" using assms(1) two_powi_pos [of L] by linarith
  with assms have "\<lfloor>log 2 \<bar>x\<bar>\<rfloor> = L" by (simp add: floor_log2_eq)
  with assms(3) show ?thesis by (simp add: binade_def)
qed

lemma binade_subnormal:
  assumes "x \<noteq> 0" "\<bar>x\<bar> < 2 powi (- 1022)"
  shows "binade x = - 1074"
proof -
  have pos: "0 < \<bar>x\<bar>" using assms(1) by simp
  define L where "L = \<lfloor>log 2 \<bar>x\<bar>\<rfloor>"
  then have "2 powi L \<le> \<bar>x\<bar>" using floor_log2_eq [OF pos, of L] by simp
  with assms(2) have "(2::real) powi L < 2 powi (- 1022)" by linarith
  then have "L < - 1022" by (rule two_powi_less_iff [THEN iffD1])
  then show ?thesis by (simp add: binade_def L_def)
qed

lemma binade_cases:
  assumes "x \<noteq> 0"
  obtains (subnormal) "\<bar>x\<bar> < 2 powi (- 1022)" "binade x = - 1074"
  | (normal) L where "2 powi L \<le> \<bar>x\<bar>" "\<bar>x\<bar> < 2 powi (L + 1)" "- 1022 \<le> L" "binade x = L - 52"
proof (cases "\<bar>x\<bar> < 2 powi (- 1022)")
  case True
  from subnormal [OF True binade_subnormal [OF assms True]] show ?thesis .
next
  case False
  have pos: "0 < \<bar>x\<bar>" using assms by simp
  define L where "L = \<lfloor>log 2 \<bar>x\<bar>\<rfloor>"
  then have b: "2 powi L \<le> \<bar>x\<bar>" "\<bar>x\<bar> < 2 powi (L + 1)"
    using floor_log2_eq [OF pos, of L] by simp_all
  from False b(2) have "(2::real) powi (- 1022) < 2 powi (L + 1)" by linarith
  then have "- 1022 < L + 1" by (rule two_powi_less_iff [THEN iffD1])
  then have l: "- 1022 \<le> L" by linarith
  from normal [OF b l binade_normal [OF b l]] show ?thesis .
qed

lemma powi_split: "(2::real) powi a = 2 powi (a - b) * 2 powi b"
  using power_int_add [of "2::real" "a - b" b] by simp

text \<open>
  A real rounds to 0 exactly when it is at most half the smallest positive float,
  \<open>2 powi (- 1074)\<close>: the tie goes to the even multiple, which is 0.
\<close>

lemma round64_zero_iff: "round64 x = 0 \<longleftrightarrow> \<bar>x\<bar> \<le> 2 powi (- 1075)"
proof (cases "x = 0")
  case True
  then have r: "round64 x = 0" by (simp add: round64_def)
  have "\<bar>x\<bar> = 0" using True by simp
  with two_powi_pos [of "- 1075"] have "\<bar>x\<bar> \<le> 2 powi (- 1075)" by linarith
  with r show ?thesis by blast
next
  case False
  have h: "(2::real) powi (e - 1) = 2 powi e / 2" for e :: int
    using power_int_add [of "2::real" "e - 1" 1] by simp
  have z: "round64 x = 0 \<longleftrightarrow> \<bar>x\<bar> \<le> 2 powi (binade x - 1)"
  proof -
    have "round64 x = 0 \<longleftrightarrow> round_half_even (x / 2 powi binade x) = 0"
      using False two_powi_pos [of "binade x"] by (simp add: round64_def)
    also have "\<dots> \<longleftrightarrow> \<bar>x\<bar> / 2 powi binade x \<le> 1 / 2"
    proof -
      have "\<bar>x / 2 powi binade x\<bar> = \<bar>x\<bar> / 2 powi binade x"
        using two_powi_pos [of "binade x"] by (simp add: abs_divide)
      then show ?thesis by (simp only: rhe_zero_iff)
    qed
    also have "\<dots> \<longleftrightarrow> \<bar>x\<bar> \<le> 2 powi (binade x - 1)"
      unfolding h using two_powi_pos [of "binade x"] by (simp add: field_simps)
    finally show ?thesis .
  qed
  from False show ?thesis
  proof (cases rule: binade_cases)
    case subnormal
    have "binade x - 1 = - 1075" unfolding subnormal(2) by simp
    with z show ?thesis by (simp only:)
  next
    case (normal L)
    have "(2::real) powi (binade x - 1) < 2 powi L"
      unfolding normal(4) by (rule two_powi_less_iff [THEN iffD2]) simp
    with normal(1) have n1: "\<not> \<bar>x\<bar> \<le> 2 powi (binade x - 1)" by linarith
    have "(2::real) powi (- 1075) < 2 powi L"
      by (rule two_powi_less_iff [THEN iffD2]) (use normal(3) in linarith)
    with normal(1) have n2: "\<not> \<bar>x\<bar> \<le> 2 powi (- 1075)" by linarith
    from z n1 n2 show ?thesis by (simp only:)
  qed
qed

text \<open>
  A multiple of a power of 2 that fits in 53 bits is a float, and rounding leaves it as it
  is. Halving a float keeps it a float as long as the half is a normal number.
\<close>

lemma round64_exact:
  assumes "x = of_int m * 2 powi k" "- 1074 \<le> k" "\<bar>x\<bar> < 2 powi (k + 53)"
  shows "round64 x = x"
proof (cases "x = 0")
  case True
  then show ?thesis by (simp add: round64_def)
next
  case False
  define e where "e = binade x"
  have "e \<le> k"
  proof -
    from False show ?thesis
    proof (cases rule: binade_cases)
      case subnormal
      with assms(2) show ?thesis by (simp add: e_def)
    next
      case (normal L)
      from normal(1) assms(3) have "(2::real) powi L < 2 powi (k + 53)" by linarith
      then have "L < k + 53" by (rule two_powi_less_iff [THEN iffD1])
      with normal(4) show ?thesis by (simp add: e_def)
    qed
  qed
  then have p: "(2::real) powi (k - e) = of_int (2 ^ nat (k - e))"
    by (simp add: power_int_def)
  have "x / 2 powi e = of_int m * 2 powi (k - e)"
    unfolding assms(1) using powi_split [of k e] two_powi_pos [of e] by (simp add: field_simps)
  also have "\<dots> = of_int (m * 2 ^ nat (k - e))"
    unfolding p by simp
  finally have "round_half_even (x / 2 powi e) = m * 2 ^ nat (k - e)"
    by (simp only: rhe_of_int)
  then have "round64 x = of_int (m * 2 ^ nat (k - e)) * 2 powi e"
    using False by (simp add: round64_def e_def)
  also have "\<dots> = of_int m * (2 powi (k - e) * 2 powi e)"
    unfolding p by simp
  also have "\<dots> = x"
    unfolding assms(1) using powi_split [of k e] by simp
  finally show ?thesis .
qed

lemma round64_normal:
  assumes "2 powi L \<le> \<bar>x\<bar>" "\<bar>x\<bar> < 2 powi (L + 1)" "- 1022 \<le> L"
  shows "round64 x = of_int (round_half_even (x / 2 powi (L - 52))) * 2 powi (L - 52)"
proof -
  have "0 < \<bar>x\<bar>" using assms(1) two_powi_pos [of L] by linarith
  then have "x \<noteq> 0" by auto
  then show ?thesis by (simp add: round64_def binade_normal [OF assms])
qed

lemma round64_half:
  assumes "round64 d = d" "2 powi (- 1021) \<le> \<bar>d\<bar>"
  shows "round64 (d / 2) = d / 2"
proof -
  have "0 < \<bar>d\<bar>" using assms(2) two_powi_pos [of "- 1021"] by linarith
  then have nz: "d \<noteq> 0" by auto
  from nz obtain L where L: "2 powi L \<le> \<bar>d\<bar>" "\<bar>d\<bar> < 2 powi (L + 1)" "- 1022 \<le> L"
  proof (cases rule: binade_cases)
    case subnormal
    have "(2::real) powi (- 1022) \<le> 2 powi (- 1021)"
      by (rule two_powi_le_iff [THEN iffD2]) simp
    with subnormal(1) assms(2) show ?thesis by linarith
  next
    case (normal L)
    with that show ?thesis by blast
  qed
  from L(2) assms(2) have "(2::real) powi (- 1021) < 2 powi (L + 1)" by linarith
  then have "- 1021 < L + 1" by (rule two_powi_less_iff [THEN iffD1])
  then have l: "- 1022 \<le> L - 1" by linarith
  have h: "(2::real) powi (e - 1) = 2 powi e / 2" for e :: int
    using power_int_add [of "2::real" "e - 1" 1] by simp
  have h2: "(2::real) powi (L - 1 + 1) = 2 powi (L + 1) / 2"
    using h [of "L + 1"] by simp
  have a: "\<bar>d / 2\<bar> = \<bar>d\<bar> / 2" by simp
  have b: "2 powi (L - 1) \<le> \<bar>d / 2\<bar>" "\<bar>d / 2\<bar> < 2 powi (L - 1 + 1)"
    unfolding h [of L] h2 a using L(1,2) by linarith+
  have e: "L - 1 - 52 = L - 52 - 1" by simp
  have "round64 (d / 2)
        = of_int (round_half_even (d / 2 / 2 powi (L - 1 - 52))) * 2 powi (L - 1 - 52)"
    by (rule round64_normal [OF b l])
  also have "\<dots> = of_int (round_half_even (d / 2 powi (L - 52))) * 2 powi (L - 52) / 2"
    unfolding e h [of "L - 52"] by simp
  also have "\<dots> = round64 d / 2"
    by (simp only: round64_normal [OF L])
  finally show ?thesis by (simp only: assms(1))
qed

text \<open>The float that is delivered: when it is a zero, and when it is the exact result.\<close>

lemma mk_float_zero_iff: "is_zero (mk_float s r) \<longleftrightarrow> \<bar>r\<bar> \<le> 2 powi (- 1075)"
proof -
  have "is_zero (mk_float s r) \<longleftrightarrow> round64 r = 0"
    using two_powi_pos [of 1024]
    by (auto simp add: mk_float_def Let_def is_zero_def signed_inf_def signed_zero_def
        simp del: power_int_numeral)
  then show ?thesis by (simp only: round64_zero_iff)
qed

lemma mk_float_exact:
  assumes "x = of_int m * 2 powi k" "- 1074 \<le> k" "k \<le> 971" "\<bar>x\<bar> < 2 powi (k + 53)" "x \<noteq> 0"
  shows "mk_float s x = Finite x"
proof -
  have r: "round64 x = x" by (rule round64_exact [OF assms(1,2,4)])
  have "(2::real) powi (k + 53) \<le> 2 powi 1024"
    by (rule two_powi_le_iff [THEN iffD2]) (use assms(3) in linarith)
  with assms(4) have "\<not> 2 powi 1024 \<le> \<bar>x\<bar>" by linarith
  with r assms(5) show ?thesis
    by (simp add: mk_float_def Let_def del: power_int_numeral)
qed

lemma mk_float_0 [simp]: "mk_float s 0 = signed_zero s"
  using two_powi_pos [of 1024]
  by (simp add: mk_float_def Let_def round64_def del: power_int_numeral)

lemma is_zero_simps [simp]:
  "is_zero (signed_zero s)" "\<not> is_zero (signed_inf s)" "\<not> is_zero NaN"
  "is_zero (Finite r) \<longleftrightarrow> r = 0" "is_zero NegZero" "\<not> is_zero PosInf" "\<not> is_zero NegInf"
  by (simp_all add: is_zero_def signed_zero_def signed_inf_def)

text \<open>
  The float delivered for a normal result \<open>x\<close>, by the integer \<open>n\<close> nearest to \<open>x\<close> counted in
  units of the last place. This evaluates the literals and quotients below.
\<close>

lemma mk_float_eval:
  assumes "2 powi L \<le> \<bar>x\<bar>" "\<bar>x\<bar> < 2 powi (L + 1)" "- 1022 \<le> L" "L \<le> 1022"
    and "of_int n - 1 / 2 < x / 2 powi (L - 52)" "x / 2 powi (L - 52) < of_int n + 1 / 2"
    and "n \<noteq> 0" "\<bar>real_of_int n\<bar> \<le> 2 powi 53"
    and "y = of_int n * 2 powi (L - 52)"
  shows "mk_float s x = Finite y"
proof -
  have r: "round64 x = y"
    unfolding assms(9) round64_normal [OF assms(1-3)] rhe_near [OF assms(5,6)] ..
  have nz: "y \<noteq> 0"
    unfolding assms(9) using assms(7) two_powi_pos [of "L - 52"] by simp
  have "\<bar>y\<bar> = \<bar>real_of_int n\<bar> * 2 powi (L - 52)"
    unfolding assms(9) by (simp add: abs_mult)
  also have "\<dots> \<le> 2 powi 53 * 2 powi (L - 52)"
    using assms(8) two_powi_pos [of "L - 52"] by (intro mult_right_mono) auto
  also have "\<dots> = 2 powi (L + 1)"
  proof -
    have "(2::real) powi (53 + (L - 52)) = 2 powi 53 * 2 powi (L - 52)"
      by (rule power_int_add) simp
    moreover have "53 + (L - 52) = L + 1" by simp
    ultimately show ?thesis by (simp only:)
  qed
  also have "\<dots> < 2 powi 1024"
    by (rule two_powi_less_iff [THEN iffD2]) (use assms(4) in linarith)
  finally have "\<not> 2 powi 1024 \<le> \<bar>y\<bar>" by linarith
  with r nz show ?thesis
    by (simp add: mk_float_def Let_def del: power_int_numeral)
qed


lemma float_lit_half: "float_lit 0.5 = Finite (1 / 2)"
proof -
  have "mk_float False 0.5 = Finite 0.5"
    by (rule mk_float_exact [where m = 1 and k = "- 1"]) simp_all
  then show ?thesis unfolding float_lit_def by simp
qed

section \<open>Properties of the formulas\<close>







text \<open>The operations on finite operands.\<close>

lemma float_div_finite:
  "b \<noteq> 0 \<Longrightarrow> float_div (Finite a) (Finite b) = Inr (mk_float ((a < 0) \<noteq> (b < 0)) (a / b))"
  by (simp add: float_div_def is_inf_def negative_def value_of_def)

lemma float_mul_finite:
  "float_mul (Finite a) (Finite b) = mk_float ((a < 0) \<noteq> (b < 0)) (a * b)"
  by (simp add: float_mul_def is_inf_def negative_def value_of_def)

lemma float_sub_finite:
  "float_sub (Finite a) (Finite b) =
     (if a = b then Finite 0 else mk_float (a - b < 0) (a - b))"
  by (simp add: float_sub_def is_inf_def value_of_def signed_zero_def)

text \<open>Values that binary64 holds exactly.\<close>

lemma mk_float_dyadic:
  "mk_float s 1 = Finite 1" "mk_float s (1 / 2) = Finite (1 / 2)"
  "mk_float s (- 1) = Finite (- 1)" "mk_float s (- (1 / 2)) = Finite (- (1 / 2))"
  "mk_float s (3 / 2) = Finite (3 / 2)" "mk_float s 2 = Finite 2" "mk_float s 3 = Finite 3"
  "mk_float s (1 / 4) = Finite (1 / 4)" "mk_float s (3 / 4) = Finite (3 / 4)"
  "mk_float s 15 = Finite 15" "mk_float s (15 / 2) = Finite (15 / 2)"
  "mk_float s 50 = Finite 50" "mk_float s (- 50) = Finite (- 50)"
  "mk_float s 75 = Finite 75" "mk_float s 100 = Finite 100" "mk_float s 150 = Finite 150"
  apply (rule mk_float_exact [where m = 1 and k = 0]; simp)
  apply (rule mk_float_exact [where m = 1 and k = "- 1"]; simp)
  apply (rule mk_float_exact [where m = "- 1" and k = 0]; simp)
  apply (rule mk_float_exact [where m = "- 1" and k = "- 1"]; simp)
  apply (rule mk_float_exact [where m = 3 and k = "- 1"]; simp)
  apply (rule mk_float_exact [where m = 2 and k = 0]; simp)
  apply (rule mk_float_exact [where m = 3 and k = 0]; simp)
  apply (rule mk_float_exact [where m = 1 and k = "- 2"]; simp)
  apply (rule mk_float_exact [where m = 3 and k = "- 2"]; simp)
  apply (rule mk_float_exact [where m = 15 and k = 0]; simp)
  apply (rule mk_float_exact [where m = 15 and k = "- 1"]; simp)
  apply (rule mk_float_exact [where m = 50 and k = 0]; simp)
  apply (rule mk_float_exact [where m = "- 50" and k = 0]; simp)
  apply (rule mk_float_exact [where m = 75 and k = 0]; simp)
  apply (rule mk_float_exact [where m = 100 and k = 0]; simp)
  apply (rule mk_float_exact [where m = 150 and k = 0]; simp)
  done

lemma float_lit_values:
  "float_lit 7.5 = Finite (15 / 2)" "float_lit 15.0 = Finite 15"
proof -
  have "mk_float False 7.5 = Finite 7.5"
    by (rule mk_float_exact [where m = 15 and k = "- 1"]) simp_all
  then show "float_lit 7.5 = Finite (15 / 2)" unfolding float_lit_def by simp
  have "mk_float False 15.0 = Finite 15.0"
    by (rule mk_float_exact [where m = 15 and k = 0]) simp_all
  then show "float_lit 15.0 = Finite 15" unfolding float_lit_def by simp
qed

lemma liver_unfold:
  "adjust_dose_for_liver_function dose score m =
     (case float_div score m of
        Inl e \<Rightarrow> Inl e
      | Inr q \<Rightarrow> Inr (float_mul dose (float_sub (Finite 1) (float_mul q (Finite (1 / 2))))))"
  unfolding adjust_dose_for_liver_function_def float_lit_half Let_def ..

lemma liver_at_max:
  assumes "r \<noteq> 0"
  shows "adjust_dose_for_liver_function dose (Finite r) (Finite r)
         = Inr (float_mul dose (Finite (1 / 2)))"
  using assms
  by (simp add: liver_unfold float_div_finite float_mul_finite float_sub_finite mk_float_dyadic)

text \<open>
  Halving a float is exact as long as the half is a normal number: the same 53 bits, the
  exponent one less.
\<close>

lemma half_exact:
  assumes "round64 d = d" "2 powi (- 1021) \<le> \<bar>d\<bar>" "\<bar>d\<bar> < 2 powi 1024"
  shows "float_mul (Finite d) (Finite (1 / 2)) = Finite (d / 2)"
proof -
  have "0 < \<bar>d\<bar>" using assms(2) two_powi_pos [of "- 1021"] by linarith
  then have nz: "d / 2 \<noteq> 0" by auto
  have r: "round64 (d / 2) = d / 2" by (rule round64_half [OF assms(1,2)])
  have "\<bar>d / 2\<bar> \<le> \<bar>d\<bar>" by simp
  with assms(3) have "\<not> 2 powi 1024 \<le> \<bar>d / 2\<bar>" by linarith
  with r nz have "mk_float s (d / 2) = Finite (d / 2)" for s
    unfolding mk_float_def Let_def r by (simp only: if_False)
  moreover have "d * (1 / 2) = d / 2" by simp
  ultimately show ?thesis by (simp only: float_mul_finite)
qed

lemma liver_values:
  "adjust_dose_for_liver_function (Finite 100) (float_lit 7.5) default_max_score
     = Inr (Finite 75)"
  "adjust_dose_for_liver_function (Finite 100) (Finite 30) (Finite 15) = Inr (Finite 0)"
  "adjust_dose_for_liver_function (Finite 100) (Finite 45) (Finite 15) = Inr (Finite (- 50))"
  "adjust_dose_for_liver_function (Finite 100) (Finite (- 15)) (Finite 15) = Inr (Finite 150)"
  unfolding liver_unfold default_max_score_def float_lit_values
  by (simp_all add: float_div_finite float_mul_finite float_sub_finite mk_float_dyadic
      signed_zero_def)

text \<open>
  Claim C6, as amended. The call raises the division error exactly when \<open>max_score\<close> is a
  zero, and raises nothing else. For every other \<open>max_score\<close> the result is
  \<open>dose * (1 - (score / max_score) * 0.5)\<close> in float arithmetic, each of the four operations
  rounded to the nearest float. At \<open>score = max_score\<close>, finite and not 0, the result is the
  float product of the dose and 0.5; that is exactly half the dose for every float dose
  with \<open>2 powi (- 1021) \<le> \<bar>dose\<bar>\<close>. So \<^verbatim>\<open>adjust_dose_for_liver_function(100.0, 7.5)\<close> is
  exactly 75.0. The result is not clamped: for a score above \<open>max_score\<close> it can be below
  half the dose (dose 100, score 30, \<open>max_score\<close> 15 give 0.0) and negative (score 45 gives
  -50.0), and for a negative score it can exceed the dose (score -15 gives 150.0).
\<close>

theorem liver_adjustment_rounded:
  "((\<exists>e. adjust_dose_for_liver_function dose score m = Inl e) \<longleftrightarrow> is_zero m)
   \<and> (adjust_dose_for_liver_function dose score m = Inl ZeroDivisionError \<longleftrightarrow> is_zero m)
   \<and> (\<not> is_zero m \<longrightarrow>
        (\<exists>q. float_div score m = Inr q
           \<and> adjust_dose_for_liver_function dose score m
               = Inr (float_mul dose (float_sub (Finite 1) (float_mul q (float_lit 0.5))))))
   \<and> (r \<noteq> 0 \<longrightarrow>
        adjust_dose_for_liver_function dose (Finite r) (Finite r)
          = Inr (float_mul dose (float_lit 0.5)))
   \<and> (r \<noteq> 0 \<and> round64 d = d \<and> 2 powi (- 1021) \<le> \<bar>d\<bar> \<and> \<bar>d\<bar> < 2 powi 1024 \<longrightarrow>
        adjust_dose_for_liver_function (Finite d) (Finite r) (Finite r) = Inr (Finite (d / 2)))
   \<and> adjust_dose_for_liver_function (Finite 100) (float_lit 7.5) default_max_score
       = Inr (Finite 75)
   \<and> adjust_dose_for_liver_function (Finite 100) (Finite 30) (Finite 15) = Inr (Finite 0)
   \<and> adjust_dose_for_liver_function (Finite 100) (Finite 45) (Finite 15) = Inr (Finite (- 50))
   \<and> adjust_dose_for_liver_function (Finite 100) (Finite (- 15)) (Finite 15)
       = Inr (Finite 150)"
proof -
  have a: "(\<exists>e. adjust_dose_for_liver_function dose score m = Inl e) \<longleftrightarrow> is_zero m"
    "adjust_dose_for_liver_function dose score m = Inl ZeroDivisionError \<longleftrightarrow> is_zero m"
    by (simp_all add: liver_unfold float_div_def)
  have b: "\<exists>q. float_div score m = Inr q
           \<and> adjust_dose_for_liver_function dose score m
               = Inr (float_mul dose (float_sub (Finite 1) (float_mul q (float_lit 0.5))))"
    if "\<not> is_zero m"
    using that by (simp add: adjust_dose_for_liver_function_def float_div_def)
  have c: "adjust_dose_for_liver_function dose (Finite r) (Finite r)
          = Inr (float_mul dose (float_lit 0.5))" if "r \<noteq> 0"
    using liver_at_max [OF that] by (simp only: float_lit_half)
  have d: "adjust_dose_for_liver_function (Finite d) (Finite r) (Finite r) = Inr (Finite (d / 2))"
    if "r \<noteq> 0" "round64 d = d" "2 powi (- 1021) \<le> \<bar>d\<bar>" "\<bar>d\<bar> < 2 powi 1024"
    using liver_at_max [OF that(1)] half_exact [OF that(2-4)] by (simp only:)
  from a b c d liver_values show ?thesis
    by blast
qed

lemma round64_100: "round64 100 = 100"
  by (rule round64_exact [where m = 25 and k = 2]) simp_all

lemma normal_100: "2 powi (- 1021) \<le> \<bar>100 :: real\<bar>" "\<bar>100 :: real\<bar> < 2 powi 1024"
proof -
  have "(2::real) powi (- 1021) \<le> 2 powi 0"
    by (rule two_powi_le_iff [THEN iffD2]) simp
  then show "2 powi (- 1021) \<le> \<bar>100 :: real\<bar>" by simp
  have "(2::real) powi 7 \<le> 2 powi 1024"
    by (rule two_powi_le_iff [THEN iffD2]) simp
  moreover have "\<bar>100 :: real\<bar> < 2 powi 7" by simp
  ultimately show "\<bar>100 :: real\<bar> < 2 powi 1024" by linarith
qed

theorem liver_adjustment_rounded_witness:
  "is_zero (Finite 0)
   \<and> adjust_dose_for_liver_function (Finite 100) (Finite 15) (Finite 0) = Inl ZeroDivisionError
   \<and> \<not> is_zero (Finite 15)
   \<and> (\<exists>q. float_div (Finite 20) (Finite 15) = Inr q
         \<and> adjust_dose_for_liver_function (Finite 100) (Finite 20) (Finite 15)
             = Inr (float_mul (Finite 100) (float_sub (Finite 1) (float_mul q (float_lit 0.5)))))
   \<and> (15 :: real) \<noteq> 0 \<and> round64 100 = 100
   \<and> 2 powi (- 1021) \<le> \<bar>100 :: real\<bar> \<and> \<bar>100 :: real\<bar> < 2 powi 1024
   \<and> adjust_dose_for_liver_function (Finite 100) (Finite 15) (Finite 15)
       = Inr (float_mul (Finite 100) (float_lit 0.5))
   \<and> adjust_dose_for_liver_function (Finite 100) (Finite 15) (Finite 15)
       = Inr (Finite (100 / 2))"
proof -
  have z: "is_zero (Finite 0)" "\<not> is_zero (Finite 15)" "(15 :: real) \<noteq> 0"
    by simp_all
  note t = liver_adjustment_rounded [where dose = "Finite 100" and r = 15 and d = 100]
  have a: "adjust_dose_for_liver_function (Finite 100) (Finite 15) (Finite 0)
           = Inl ZeroDivisionError"
    using t [where score = "Finite 15" and m = "Finite 0"] z(1) by blast
  have b: "\<exists>q. float_div (Finite 20) (Finite 15) = Inr q
         \<and> adjust_dose_for_liver_function (Finite 100) (Finite 20) (Finite 15)
             = Inr (float_mul (Finite 100) (float_sub (Finite 1) (float_mul q (float_lit 0.5))))"
    using t [where score = "Finite 20" and m = "Finite 15"] z(2) by blast
  have c: "adjust_dose_for_liver_function (Finite 100) (Finite 15) (Finite 15)
       = Inr (float_mul (Finite 100) (float_lit 0.5))"
    using t [where score = "Finite 20" and m = "Finite 15"] z(3) by blast
  have d: "adjust_dose_for_liver_function (Finite 100) (Finite 15) (Finite 15)
       = Inr (Finite (100 / 2))"
    using t [where score = "Finite 20" and m = "Finite 15"] z(3) round64_100 normal_100
    by blast
  from z a b c d round64_100 normal_100 show ?thesis
    by blast
qed

text \<open>
  Claim C6 as stated fails in four ways. A negative score does not raise a dose of 0.0 (the
  result is 0.0), and with a negative \<open>max_score\<close> it lowers the dose: score -15 and
  \<open>max_score\<close> -15 give 50.0 for the dose 100.0. With the dose 100.0, \<open>max_score\<close> 1.0 and
  the negative score \<open>- (2 powi (- 60))\<close>, the factor \<open>1 + 2 powi (- 61)\<close> rounds to 1.0 and the
  result is exactly 100.0: it does not exceed the dose, and it is not the value of the
  formula in exact arithmetic. At \<open>score = max_score\<close> the smallest positive float,
  \<open>2 powi (- 1074)\<close>, is not halved: its half rounds to 0.0.
\<close>

theorem liver_rounding_counterexample:
  "\<not> is_zero (Finite 15)
   \<and> adjust_dose_for_liver_function (Finite 0) (Finite (- 15)) (Finite 15) = Inr (Finite 0)
   \<and> \<not> is_zero (Finite (- 15))
   \<and> adjust_dose_for_liver_function (Finite 100) (Finite (- 15)) (Finite (- 15))
       = Inr (Finite 50)
   \<and> \<not> is_zero (Finite 1) \<and> - (2 powi (- 60)) < (0 :: real)
   \<and> adjust_dose_for_liver_function (Finite 100) (Finite (- (2 powi (- 60)))) (Finite 1)
       = Inr (Finite 100)
   \<and> (100 :: real) * (1 - (- (2 powi (- 60)) / 1) * 0.5) \<noteq> 100
   \<and> adjust_dose_for_liver_function (Finite (2 powi (- 1074))) (Finite 15) (Finite 15)
       = Inr (Finite 0)
   \<and> (2 :: real) powi (- 1074) / 2 \<noteq> 0"
proof -
  have a: "adjust_dose_for_liver_function (Finite 0) (Finite (- 15)) (Finite 15)
           = Inr (Finite 0)"
    unfolding liver_unfold
    by (simp add: float_div_finite float_mul_finite float_sub_finite mk_float_dyadic
        signed_zero_def)
  have b: "adjust_dose_for_liver_function (Finite 100) (Finite (- 15)) (Finite (- 15))
           = Inr (Finite 50)"
    unfolding liver_unfold
    by (simp add: float_div_finite float_mul_finite float_sub_finite mk_float_dyadic)
  have q: "mk_float True (- (1 / 1152921504606846976)) = Finite (- (1 / 1152921504606846976))"
    by (rule mk_float_exact [where m = "- 1" and k = "- 60"]) simp_all
  have h: "mk_float True (- (1 / 2305843009213693952)) = Finite (- (1 / 2305843009213693952))"
    by (rule mk_float_exact [where m = "- 1" and k = "- 61"]) simp_all
  have o: "mk_float False (2305843009213693953 / 2305843009213693952) = Finite 1"
    by (rule mk_float_eval [where L = 0 and n = 4503599627370496]) simp_all
  have c: "adjust_dose_for_liver_function (Finite 100) (Finite (- (2 powi (- 60)))) (Finite 1)
           = Inr (Finite 100)"
    unfolding liver_unfold
    by (simp add: float_div_finite float_mul_finite float_sub_finite q h o mk_float_dyadic)
  have "\<bar>(2::real) powi (- 1074) * (1 / 2)\<bar> \<le> 2 powi (- 1075)"
    using power_int_add [of "2::real" "- 1075" 1]
    by (simp del: power_int_numeral_neg_numeral power_int_numeral)
  then have "is_zero (mk_float False (2 powi (- 1074) * (1 / 2)))"
    by (simp only: mk_float_zero_iff)
  moreover have "mk_float False r \<noteq> NegZero" for r
    by (simp add: mk_float_def Let_def signed_inf_def signed_zero_def del: power_int_numeral)
  ultimately have u: "mk_float False (2 powi (- 1074) * (1 / 2)) = Finite 0"
    unfolding is_zero_def by blast
  have d: "adjust_dose_for_liver_function (Finite (2 powi (- 1074))) (Finite 15) (Finite 15)
           = Inr (Finite 0)"
    unfolding liver_at_max [of 15, simplified] float_mul_finite
    using u two_powi_pos [of "- 1074"]
    by (simp add: not_less [symmetric] del: power_int_numeral_neg_numeral power_int_numeral)
  have e: "(2 :: real) powi (- 1074) / 2 \<noteq> 0"
    using two_powi_pos [of "- 1074"] by simp
  have f: "(100 :: real) * (1 - (- (2 powi (- 60)) / 1) * 0.5) \<noteq> 100"
    by simp
  have g: "- (2 powi (- 60)) < (0 :: real)"
    by simp
  from a b c d e f g show ?thesis
    by simp
qed

section \<open>Properties of the therapeutic range checker\<close>

lemma map_of_of_json:
  "map_of (map (\<lambda>kv. (PStr (fst kv), of_json (snd kv))) kvs) (PStr k)
   = map_option of_json (map_of kvs k)"
  by (induction kvs) auto

lemma of_json_eq_PNone: "of_json j = PNone \<longleftrightarrow> j = JNull"
  by (cases j) auto

lemma py_get_loaded:
  "py_get (PDict (map (\<lambda>kv. (PStr (fst kv), of_json (snd kv))) kvs)) k
   = Inr (case map_of kvs k of None \<Rightarrow> PNone | Some j \<Rightarrow> of_json j)"
  by (simp add: py_get_def map_of_of_json split: option.split)

lemma unpack2_pair: "unpack2 (PList [a, b]) = Inr (a, b)"
  by (simp add: unpack2_def py_iter_def)

lemma py_le_num: "py_le (PNum x) (PNum y) = Inr (x \<le> y)"
  by (simp add: py_le_def num_of_def)

text \<open>The result for a file that holds a JSON object, by the entry found for the name.\<close>

lemma within_loaded:
  "fs db_file = Content (JObj kvs) \<Longrightarrow>
   is_within_therapeutic_range ucd c n pd db_file fs =
     (case map_of kvs (lower ucd n) of
        None \<Rightarrow> Inl (UnknownDrug n)
      | Some j \<Rightarrow>
          if j = JNull then Inl (UnknownDrug n)
          else (case unpack2 (of_json j) of
                  Inl e \<Rightarrow> Inl e
                | Inr (lo, up) \<Rightarrow>
                    (case py_le lo (PNum c) of
                       Inl e \<Rightarrow> Inl e
                     | Inr below \<Rightarrow> if below then py_le (PNum c) up else Inr False)))"
  by (simp add: is_within_therapeutic_range_def load_db_def py_get_loaded of_json_eq_PNone
      split: option.split)

lemma within_no_document:
  "fs db = Absent \<Longrightarrow> is_within_therapeutic_range ucd c n pd db fs = Inl (MissingDatabase db)"
  "fs db = Unreadable \<Longrightarrow> is_within_therapeutic_range ucd c n pd db fs = Inl OSError"
  "fs db = Malformed \<Longrightarrow> is_within_therapeutic_range ucd c n pd db fs = Inl JSONDecodeError"
  by (simp_all add: is_within_therapeutic_range_def load_db_def)

lemma within_not_object:
  "fs db = Content j \<Longrightarrow> \<forall>kvs. j \<noteq> JObj kvs \<Longrightarrow>
   is_within_therapeutic_range ucd c n pd db fs = Inl AttributeError"
  by (cases j) (simp_all add: is_within_therapeutic_range_def load_db_def py_get_def)

lemma unpack2_native:
  "unpack2 v \<noteq> Inl (UnknownDrug m)" "unpack2 v \<noteq> Inl (MissingDatabase m)"
  by (auto simp add: unpack2_def py_iter_def split: pyval.splits)

lemma py_le_native:
  "py_le a b \<noteq> Inl (UnknownDrug m)" "py_le a b \<noteq> Inl (MissingDatabase m)"
  by (auto simp add: py_le_def split: option.splits)

lemma verdict_native:
  "(case unpack2 v of
      Inl e \<Rightarrow> Inl e
    | Inr (lo, up) \<Rightarrow>
        (case py_le lo (PNum c) of
           Inl e \<Rightarrow> Inl e
         | Inr below \<Rightarrow> if below then py_le (PNum c) up else Inr False))
   \<noteq> Inl (UnknownDrug m)"
  "(case unpack2 v of
      Inl e \<Rightarrow> Inl e
    | Inr (lo, up) \<Rightarrow>
        (case py_le lo (PNum c) of
           Inl e \<Rightarrow> Inl e
         | Inr below \<Rightarrow> if below then py_le (PNum c) up else Inr False))
   \<noteq> Inl (MissingDatabase m)"
  by (auto simp add: unpack2_native py_le_native split: sum.splits prod.splits)

lemma missing_database_iff:
  "(\<exists>p. is_within_therapeutic_range ucd c n pd db fs = Inl (MissingDatabase p))
   \<longleftrightarrow> fs db = Absent"
proof (cases "fs db")
  case (Content j)
  show ?thesis
  proof (cases "\<exists>kvs. j = JObj kvs")
    case True
    then obtain kvs where "j = JObj kvs" by blast
    with Content show ?thesis
      by (auto simp add: within_loaded verdict_native split: option.splits)
  next
    case False
    with Content show ?thesis by (simp add: within_not_object)
  qed
qed (simp_all add: within_no_document)

lemma unknown_drug_iff:
  "(\<exists>m. is_within_therapeutic_range ucd c n pd db fs = Inl (UnknownDrug m)) \<longleftrightarrow>
   (\<exists>kvs. fs db = Content (JObj kvs)
      \<and> (map_of kvs (lower ucd n) = None \<or> map_of kvs (lower ucd n) = Some JNull))"
proof (cases "fs db")
  case (Content j)
  show ?thesis
  proof (cases "\<exists>kvs. j = JObj kvs")
    case True
    then obtain kvs where "j = JObj kvs" by blast
    with Content show ?thesis
      by (auto simp add: within_loaded verdict_native split: option.splits)
  next
    case False
    with Content show ?thesis by (auto simp add: within_not_object)
  qed
qed (simp_all add: within_no_document)

text \<open>Lowercasing on the names used below. The Unicode mapping is not consulted.\<close>

lemma lower_names:
  "lower ucd (str ''Drug_A'') = str ''drug_a''"
  "lower ucd (str ''DRUG_A'') = str ''drug_a''"
  "lower ucd (str ''drug_a'') = str ''drug_a''"
  "lower ucd (str ''Aspirin'') = str ''aspirin''"
  by (simp_all add: lower_def ascii_def str_def lower_ascii_def)

lemma test_ranges:
  "test_files therapeutic_ranges_json
   = Content (JObj [(str ''drug_a'', JArr [JNum 5, JNum 15])])"
  by (simp add: test_files_def)

text \<open>
  Claim C2. For every concentration, drug name and loaded range table that maps the
  lowercased name to \<open>[low, upper]\<close>, the check returns true exactly when
  \<open>low \<le> concentration \<le> upper\<close>, both ends included. Only the lowercased query name is
  looked up, so \<open>Drug_A\<close> finds the stored key \<open>drug_a\<close>.
\<close>

theorem range_check_inclusive:
  assumes "fs db_file = Content (JObj kvs)"
    and "map_of kvs (lower ucd drug_name) = Some (JArr [JNum low, JNum upper])"
  shows "is_within_therapeutic_range ucd concentration drug_name patient_data db_file fs
         = Inr (low \<le> concentration \<and> concentration \<le> upper)"
  using assms by (simp add: within_loaded unpack2_pair py_le_num)

theorem range_check_inclusive_witness:
  "\<forall>ucd.
     test_files therapeutic_ranges_json
       = Content (JObj [(str ''drug_a'', JArr [JNum 5, JNum 15])])
     \<and> map_of [(str ''drug_a'', JArr [JNum 5, JNum 15])] (lower ucd (str ''Drug_A''))
         = Some (JArr [JNum 5, JNum 15])
     \<and> is_within_therapeutic_range ucd 10 (str ''Drug_A'') (PDict []) therapeutic_ranges_json
          test_files = Inr True
     \<and> is_within_therapeutic_range ucd 20 (str ''Drug_A'') (PDict []) therapeutic_ranges_json
          test_files = Inr False
     \<and> is_within_therapeutic_range ucd 5 (str ''drug_a'') (PDict []) therapeutic_ranges_json
          test_files = Inr True
     \<and> is_within_therapeutic_range ucd 15 (str ''DRUG_A'') (PDict []) therapeutic_ranges_json
          test_files = Inr True"
proof
  fix ucd :: "pystr \<Rightarrow> pystr"
  note f = test_ranges
  have k: "map_of [(str ''drug_a'', JArr [JNum 5, JNum 15])] (lower ucd n)
           = Some (JArr [JNum 5, JNum 15])"
    if "lower ucd n = str ''drug_a''" for n
    using that by simp
  note l = lower_names [of ucd]
  note w = range_check_inclusive [where fs = test_files and db_file = therapeutic_ranges_json
      and patient_data = "PDict []" and ucd = ucd, OF f k]
  show "test_files therapeutic_ranges_json
       = Content (JObj [(str ''drug_a'', JArr [JNum 5, JNum 15])])
     \<and> map_of [(str ''drug_a'', JArr [JNum 5, JNum 15])] (lower ucd (str ''Drug_A''))
         = Some (JArr [JNum 5, JNum 15])
     \<and> is_within_therapeutic_range ucd 10 (str ''Drug_A'') (PDict []) therapeutic_ranges_json
          test_files = Inr True
     \<and> is_within_therapeutic_range ucd 20 (str ''Drug_A'') (PDict []) therapeutic_ranges_json
          test_files = Inr False
     \<and> is_within_therapeutic_range ucd 5 (str ''drug_a'') (PDict []) therapeutic_ranges_json
          test_files = Inr True
     \<and> is_within_therapeutic_range ucd 15 (str ''DRUG_A'') (PDict []) therapeutic_ranges_json
          test_files = Inr True"
    using w [OF l(1), of 10] w [OF l(1), of 20] w [OF l(3), of 5] w [OF l(2), of 15]
      f k [OF l(1)]
    by simp
qed

text \<open>
  Claim C3, as amended. The check raises the missing-database error if and only if no file
  is at the configured path. It raises the unknown-drug error if and only if the file loads
  as a JSON object in which the lowercased drug name is absent or mapped to \<open>null\<close>. It
  returns a boolean whenever the file loads as an object that maps the lowercased name to a
  two-element array of numbers. Each error is the result of the call: no value is returned
  in its place.
\<close>

theorem range_check_errors:
  "((\<exists>p. is_within_therapeutic_range ucd c n pd db fs = Inl (MissingDatabase p))
      \<longleftrightarrow> fs db = Absent)
   \<and> (fs db = Absent \<longrightarrow>
        is_within_therapeutic_range ucd c n pd db fs = Inl (MissingDatabase db))
   \<and> ((\<exists>m. is_within_therapeutic_range ucd c n pd db fs = Inl (UnknownDrug m)) \<longleftrightarrow>
        (\<exists>kvs. fs db = Content (JObj kvs)
           \<and> (map_of kvs (lower ucd n) = None \<or> map_of kvs (lower ucd n) = Some JNull)))
   \<and> (fs db = Content (JObj kvs) \<and> map_of kvs (lower ucd n) = None \<longrightarrow>
        is_within_therapeutic_range ucd c n pd db fs = Inl (UnknownDrug n))
   \<and> (fs db = Content (JObj kvs)
        \<and> map_of kvs (lower ucd n) = Some (JArr [JNum lo, JNum hi]) \<longrightarrow>
        (\<exists>b. is_within_therapeutic_range ucd c n pd db fs = Inr b))"
proof -
  have "is_within_therapeutic_range ucd c n pd db fs = Inl (UnknownDrug n)"
    if "fs db = Content (JObj kvs)" "map_of kvs (lower ucd n) = None"
    using that by (simp add: within_loaded)
  moreover have "\<exists>b. is_within_therapeutic_range ucd c n pd db fs = Inr b"
    if "fs db = Content (JObj kvs)" "map_of kvs (lower ucd n) = Some (JArr [JNum lo, JNum hi])"
  proof -
    from that have "is_within_therapeutic_range ucd c n pd db fs = Inr (lo \<le> c \<and> c \<le> hi)"
      by (simp add: within_loaded unpack2_pair py_le_num)
    then show ?thesis ..
  qed
  ultimately show ?thesis
    using missing_database_iff [of ucd c n pd db fs] unknown_drug_iff [of ucd c n pd db fs]
    by (simp add: within_no_document)
qed

theorem range_check_errors_witness:
  "\<forall>ucd.
     test_files (str ''missing.json'') = Absent
     \<and> is_within_therapeutic_range ucd 10 (str ''drug_a'') (PDict []) (str ''missing.json'')
          test_files = Inl (MissingDatabase (str ''missing.json''))
     \<and> test_files therapeutic_ranges_json
         = Content (JObj [(str ''drug_a'', JArr [JNum 5, JNum 15])])
     \<and> map_of [(str ''drug_a'', JArr [JNum 5, JNum 15])] (lower ucd (str ''Aspirin'')) = None
     \<and> is_within_therapeutic_range ucd 10 (str ''Aspirin'') (PDict []) therapeutic_ranges_json
          test_files = Inl (UnknownDrug (str ''Aspirin''))
     \<and> map_of [(str ''drug_a'', JArr [JNum 5, JNum 15])] (lower ucd (str ''Drug_A''))
         = Some (JArr [JNum 5, JNum 15])
     \<and> (\<exists>b. is_within_therapeutic_range ucd 10 (str ''Drug_A'') (PDict [])
              therapeutic_ranges_json test_files = Inr b)"
proof
  fix ucd :: "pystr \<Rightarrow> pystr"
  let ?kvs = "[(str ''drug_a'', JArr [JNum 5, JNum 15])]"
  have a: "test_files (str ''missing.json'') = Absent"
    by (simp add: test_files_def therapeutic_ranges_json_def drug_interactions_json_def str_def)
  note f = test_ranges
  note l = lower_names [of ucd]
  have n: "map_of ?kvs (lower ucd (str ''Aspirin'')) = None"
    unfolding l by (simp add: str_def)
  have s: "map_of ?kvs (lower ucd (str ''Drug_A'')) = Some (JArr [JNum 5, JNum 15])"
    unfolding l by simp
  have r1: "is_within_therapeutic_range ucd 10 (str ''drug_a'') (PDict []) (str ''missing.json'')
          test_files = Inl (MissingDatabase (str ''missing.json''))"
    using range_check_errors [where ucd = ucd and c = 10 and n = "str ''drug_a''"
        and pd = "PDict []" and db = "str ''missing.json''" and fs = test_files] a
    by blast
  have r2: "is_within_therapeutic_range ucd 10 (str ''Aspirin'') (PDict [])
          therapeutic_ranges_json test_files = Inl (UnknownDrug (str ''Aspirin''))"
    using range_check_errors [where ucd = ucd and c = 10 and n = "str ''Aspirin''"
        and pd = "PDict []" and db = therapeutic_ranges_json and fs = test_files
        and kvs = ?kvs] f n
    by blast
  have r3: "\<exists>b. is_within_therapeutic_range ucd 10 (str ''Drug_A'') (PDict [])
              therapeutic_ranges_json test_files = Inr b"
    using range_check_errors [where ucd = ucd and c = 10 and n = "str ''Drug_A''"
        and pd = "PDict []" and db = therapeutic_ranges_json and fs = test_files
        and kvs = ?kvs and lo = 5 and hi = 15] f s
    by blast
  from a f n s r1 r2 r3
  show "test_files (str ''missing.json'') = Absent
     \<and> is_within_therapeutic_range ucd 10 (str ''drug_a'') (PDict []) (str ''missing.json'')
          test_files = Inl (MissingDatabase (str ''missing.json''))
     \<and> test_files therapeutic_ranges_json
         = Content (JObj [(str ''drug_a'', JArr [JNum 5, JNum 15])])
     \<and> map_of [(str ''drug_a'', JArr [JNum 5, JNum 15])] (lower ucd (str ''Aspirin'')) = None
     \<and> is_within_therapeutic_range ucd 10 (str ''Aspirin'') (PDict []) therapeutic_ranges_json
          test_files = Inl (UnknownDrug (str ''Aspirin''))
     \<and> map_of [(str ''drug_a'', JArr [JNum 5, JNum 15])] (lower ucd (str ''Drug_A''))
         = Some (JArr [JNum 5, JNum 15])
     \<and> (\<exists>b. is_within_therapeutic_range ucd 10 (str ''Drug_A'') (PDict [])
              therapeutic_ranges_json test_files = Inr b)"
    by blast
qed

text \<open>
  Claim C3 as stated fails on files that load. With \<^verbatim>\<open>{"drug_a": null}\<close> the name is in the
  table and the unknown-drug error is raised all the same, because \<^verbatim>\<open>.get\<close> returns \<open>None\<close>
  for the stored \<open>null\<close>. With \<^verbatim>\<open>{"drug_a": ["low", "high"]}\<close> the file is present and the
  name is in the table, and the call neither returns a boolean nor raises one of the two
  errors: the comparison of a string with the concentration raises \<^verbatim>\<open>TypeError\<close>.
\<close>

theorem range_check_errors_counterexample:
  "\<forall>ucd.
     map_of [(str ''drug_a'', JNull)] (lower ucd (str ''drug_a'')) = Some JNull
     \<and> is_within_therapeutic_range ucd 10 (str ''drug_a'') (PDict []) therapeutic_ranges_json
          (\<lambda>p. Content (JObj [(str ''drug_a'', JNull)]))
         = Inl (UnknownDrug (str ''drug_a''))
     \<and> map_of [(str ''drug_a'', JArr [JStr (str ''low''), JStr (str ''high'')])]
          (lower ucd (str ''drug_a''))
         = Some (JArr [JStr (str ''low''), JStr (str ''high'')])
     \<and> is_within_therapeutic_range ucd 10 (str ''drug_a'') (PDict []) therapeutic_ranges_json
          (\<lambda>p. Content (JObj [(str ''drug_a'', JArr [JStr (str ''low''), JStr (str ''high'')])]))
         = Inl TypeError"
proof
  fix ucd :: "pystr \<Rightarrow> pystr"
  show "map_of [(str ''drug_a'', JNull)] (lower ucd (str ''drug_a'')) = Some JNull
     \<and> is_within_therapeutic_range ucd 10 (str ''drug_a'') (PDict []) therapeutic_ranges_json
          (\<lambda>p. Content (JObj [(str ''drug_a'', JNull)]))
         = Inl (UnknownDrug (str ''drug_a''))
     \<and> map_of [(str ''drug_a'', JArr [JStr (str ''low''), JStr (str ''high'')])]
          (lower ucd (str ''drug_a''))
         = Some (JArr [JStr (str ''low''), JStr (str ''high'')])
     \<and> is_within_therapeutic_range ucd 10 (str ''drug_a'') (PDict []) therapeutic_ranges_json
          (\<lambda>p. Content (JObj [(str ''drug_a'', JArr [JStr (str ''low''), JStr (str ''high'')])]))
         = Inl TypeError"
    by (simp add: within_loaded lower_names unpack2_pair py_le_def num_of_def)
qed

text \<open>
  Claim C8. The result of the range check, the boolean as well as the error, does not
  depend on \<open>patient_data\<close>: any two values give the same result.
\<close>

theorem patient_data_unused:
  "is_within_therapeutic_range ucd c n d1 db fs = is_within_therapeutic_range ucd c n d2 db fs"
  by (simp add: is_within_therapeutic_range_def)

lemma lower_ascii_no_capital: "ascii q \<Longrightarrow> \<not> has_capital (lower ucd q)"
  by (auto simp add: lower_def has_capital_def lower_ascii_def list_ex_iff)

lemma map_of_without_key:
  "x \<noteq> k \<Longrightarrow> map_of (filter (\<lambda>kv. fst kv \<noteq> k) kvs) x = map_of kvs x"
  by (induction kvs) auto

text \<open>
  Claim C9, as amended. Only the query name is lowercased; stored keys are compared as
  they are. An entry is consulted only by the queries whose lowercased form is its key,
  character for character: for every other query, deleting the entry changes no result. A
  key that holds one of the letters A to Z is the lowercased form of no ASCII query, and of
  no query at all whose lowercased form is free of these letters. Every query whose
  lowercased form is that of a stored key, the key itself included, raises the unknown-drug
  error, provided that lowercased form is not a key of the table as well.
\<close>

theorem capital_key_unreachable:
  "(ascii q \<longrightarrow> \<not> has_capital (lower ucd q))
   \<and> (has_capital k \<and> \<not> has_capital (lower ucd q) \<longrightarrow> lower ucd q \<noteq> k)
   \<and> (lower ucd q \<noteq> k \<longrightarrow>
        is_within_therapeutic_range ucd x q pd db (fs(db := Content (JObj kvs)))
        = is_within_therapeutic_range ucd x q pd db
            (fs(db := Content (JObj (filter (\<lambda>kv. fst kv \<noteq> k) kvs)))))
   \<and> (fs db = Content (JObj kvs) \<and> lower ucd q = lower ucd k
        \<and> lower ucd k \<notin> fst ` set kvs \<longrightarrow>
        is_within_therapeutic_range ucd x q pd db fs = Inl (UnknownDrug q))"
proof -
  have never: "lower ucd q \<noteq> k" if "has_capital k" "\<not> has_capital (lower ucd q)"
    using that by auto
  have dead: "is_within_therapeutic_range ucd x q pd db (fs(db := Content (JObj kvs)))
        = is_within_therapeutic_range ucd x q pd db
            (fs(db := Content (JObj (filter (\<lambda>kv. fst kv \<noteq> k) kvs))))"
    if "lower ucd q \<noteq> k"
    using that by (simp add: within_loaded map_of_without_key)
  have unknown: "is_within_therapeutic_range ucd x q pd db fs = Inl (UnknownDrug q)"
    if "fs db = Content (JObj kvs)" "lower ucd q = lower ucd k" "lower ucd k \<notin> fst ` set kvs"
  proof -
    from that have "map_of kvs (lower ucd q) = None"
      by (simp add: map_of_eq_None_iff)
    with that(1) show ?thesis by (simp add: within_loaded)
  qed
  show ?thesis
    using never dead unknown lower_ascii_no_capital [of q ucd] by blast
qed

theorem capital_key_unreachable_witness:
  "\<forall>ucd.
     ascii (str ''Drug_A'') \<and> ascii (str ''drug_a'')
     \<and> has_capital (str ''Drug_A'')
     \<and> \<not> has_capital (lower ucd (str ''Drug_A''))
     \<and> lower ucd (str ''Drug_A'') \<noteq> str ''Drug_A''
     \<and> lower ucd (str ''drug_a'') = lower ucd (str ''Drug_A'')
     \<and> lower ucd (str ''Drug_A'') \<notin> fst ` set [(str ''Drug_A'', JArr [JNum 5, JNum 15])]
     \<and> is_within_therapeutic_range ucd 10 (str ''Drug_A'') (PDict []) therapeutic_ranges_json
          (\<lambda>p. Content (JObj [(str ''Drug_A'', JArr [JNum 5, JNum 15])]))
         = Inl (UnknownDrug (str ''Drug_A''))
     \<and> is_within_therapeutic_range ucd 10 (str ''drug_a'') (PDict []) therapeutic_ranges_json
          (\<lambda>p. Content (JObj [(str ''Drug_A'', JArr [JNum 5, JNum 15])]))
         = Inl (UnknownDrug (str ''drug_a''))
     \<and> is_within_therapeutic_range ucd 10 (str ''Drug_A'') (PDict []) therapeutic_ranges_json
          (test_files(therapeutic_ranges_json := Content (JObj
             [(str ''Drug_A'', JArr [JNum 5, JNum 15]), (str ''drug_a'', JArr [JNum 1, JNum 2])])))
         = is_within_therapeutic_range ucd 10 (str ''Drug_A'') (PDict []) therapeutic_ranges_json
          (test_files(therapeutic_ranges_json := Content (JObj
             [(str ''drug_a'', JArr [JNum 1, JNum 2])])))"
proof
  fix ucd :: "pystr \<Rightarrow> pystr"
  let ?kvs = "[(str ''Drug_A'', JArr [JNum 5, JNum 15])]"
  let ?kvs2 = "[(str ''Drug_A'', JArr [JNum 5, JNum 15]), (str ''drug_a'', JArr [JNum 1, JNum 2])]"
  let ?fs = "\<lambda>p::pystr. Content (JObj ?kvs)"
  have as: "ascii (str ''Drug_A'')" "ascii (str ''drug_a'')"
    by (simp_all add: ascii_def str_def)
  have u: "has_capital (str ''Drug_A'')"
    by (simp add: has_capital_def str_def)
  have f: "?fs therapeutic_ranges_json = Content (JObj ?kvs)"
    by simp
  note l = lower_names [of ucd]
  have e: "lower ucd (str ''drug_a'') = lower ucd (str ''Drug_A'')"
    "lower ucd (str ''Drug_A'') = lower ucd (str ''Drug_A'')"
    by (simp_all add: l)
  have n: "lower ucd (str ''Drug_A'') \<notin> fst ` set ?kvs"
    unfolding l by (simp add: str_def)
  note t = capital_key_unreachable [where ucd = ucd and k = "str ''Drug_A''"
      and x = 10 and pd = "PDict []" and db = therapeutic_ranges_json]
  have c: "\<not> has_capital (lower ucd (str ''Drug_A''))"
    using t [where q = "str ''Drug_A''"] as(1) by blast
  have d: "lower ucd (str ''Drug_A'') \<noteq> str ''Drug_A''"
    using t [where q = "str ''Drug_A''"] u c by blast
  have r1: "is_within_therapeutic_range ucd 10 (str ''Drug_A'') (PDict [])
              therapeutic_ranges_json ?fs = Inl (UnknownDrug (str ''Drug_A''))"
    using t [where q = "str ''Drug_A''" and fs = ?fs and kvs = ?kvs] f e(2) n by blast
  have r2: "is_within_therapeutic_range ucd 10 (str ''drug_a'') (PDict [])
              therapeutic_ranges_json ?fs = Inl (UnknownDrug (str ''drug_a''))"
    using t [where q = "str ''drug_a''" and fs = ?fs and kvs = ?kvs] f e(1) n by blast
  have "filter (\<lambda>kv. fst kv \<noteq> str ''Drug_A'') ?kvs2 = [(str ''drug_a'', JArr [JNum 1, JNum 2])]"
    by (simp add: str_def)
  with t [where q = "str ''Drug_A''" and fs = test_files and kvs = ?kvs2] d
  have r3: "is_within_therapeutic_range ucd 10 (str ''Drug_A'') (PDict []) therapeutic_ranges_json
          (test_files(therapeutic_ranges_json := Content (JObj ?kvs2)))
         = is_within_therapeutic_range ucd 10 (str ''Drug_A'') (PDict []) therapeutic_ranges_json
          (test_files(therapeutic_ranges_json := Content (JObj
             [(str ''drug_a'', JArr [JNum 1, JNum 2])])))"
    by simp
  from as u c d e(1) n r1 r2 r3
  show "ascii (str ''Drug_A'') \<and> ascii (str ''drug_a'')
     \<and> has_capital (str ''Drug_A'')
     \<and> \<not> has_capital (lower ucd (str ''Drug_A''))
     \<and> lower ucd (str ''Drug_A'') \<noteq> str ''Drug_A''
     \<and> lower ucd (str ''drug_a'') = lower ucd (str ''Drug_A'')
     \<and> lower ucd (str ''Drug_A'') \<notin> fst ` set [(str ''Drug_A'', JArr [JNum 5, JNum 15])]
     \<and> is_within_therapeutic_range ucd 10 (str ''Drug_A'') (PDict []) therapeutic_ranges_json
          (\<lambda>p. Content (JObj [(str ''Drug_A'', JArr [JNum 5, JNum 15])]))
         = Inl (UnknownDrug (str ''Drug_A''))
     \<and> is_within_therapeutic_range ucd 10 (str ''drug_a'') (PDict []) therapeutic_ranges_json
          (\<lambda>p. Content (JObj [(str ''Drug_A'', JArr [JNum 5, JNum 15])]))
         = Inl (UnknownDrug (str ''drug_a''))
     \<and> is_within_therapeutic_range ucd 10 (str ''Drug_A'') (PDict []) therapeutic_ranges_json
          (test_files(therapeutic_ranges_json := Content (JObj
             [(str ''Drug_A'', JArr [JNum 5, JNum 15]), (str ''drug_a'', JArr [JNum 1, JNum 2])])))
         = is_within_therapeutic_range ucd 10 (str ''Drug_A'') (PDict []) therapeutic_ranges_json
          (test_files(therapeutic_ranges_json := Content (JObj
             [(str ''drug_a'', JArr [JNum 1, JNum 2])])))"
    by blast
qed

text \<open>
  Claim C9 as stated fails where the table also stores the lowercased spelling. With the
  keys \<open>Drug_A\<close> and \<open>drug_a\<close>, the query \<open>Drug_A\<close>, equal to a stored key character for
  character, raises no error: it is answered from the entry of \<open>drug_a\<close>, whose range is 1
  to 2, so 10 is outside and 1.5 is inside.
\<close>

theorem capital_key_counterexample:
  "\<forall>ucd.
     has_capital (str ''Drug_A'')
     \<and> is_within_therapeutic_range ucd 10 (str ''Drug_A'') (PDict []) therapeutic_ranges_json
          (\<lambda>p. Content (JObj [(str ''Drug_A'', JArr [JNum 5, JNum 15]),
                                (str ''drug_a'', JArr [JNum 1, JNum 2])]))
         = Inr False
     \<and> is_within_therapeutic_range ucd 1.5 (str ''Drug_A'') (PDict []) therapeutic_ranges_json
          (\<lambda>p. Content (JObj [(str ''Drug_A'', JArr [JNum 5, JNum 15]),
                                (str ''drug_a'', JArr [JNum 1, JNum 2])]))
         = Inr True"
proof
  fix ucd :: "pystr \<Rightarrow> pystr"
  have "map_of [(str ''Drug_A'', JArr [JNum 5, JNum 15]), (str ''drug_a'', JArr [JNum 1, JNum 2])]
          (str ''drug_a'') = Some (JArr [JNum 1, JNum 2])"
    by (simp add: str_def)
  then show "has_capital (str ''Drug_A'')
     \<and> is_within_therapeutic_range ucd 10 (str ''Drug_A'') (PDict []) therapeutic_ranges_json
          (\<lambda>p. Content (JObj [(str ''Drug_A'', JArr [JNum 5, JNum 15]),
                                (str ''drug_a'', JArr [JNum 1, JNum 2])]))
         = Inr False
     \<and> is_within_therapeutic_range ucd 1.5 (str ''Drug_A'') (PDict []) therapeutic_ranges_json
          (\<lambda>p. Content (JObj [(str ''Drug_A'', JArr [JNum 5, JNum 15]),
                                (str ''drug_a'', JArr [JNum 1, JNum 2])]))
         = Inr True"
    by (simp add: within_loaded lower_names unpack2_pair py_le_num)
      (simp add: has_capital_def str_def)
qed

section \<open>Properties of the interaction checker\<close>

lemma pair_key_sym: "pair_key ucd a b = pair_key ucd b a"
  by (auto simp add: pair_key_def)

lemma pair_key_self: "pair_key ucd n n = PTuple [PStr (lower ucd n), PStr (lower ucd n)]"
  by (simp add: pair_key_def)

lemma py_in_dict: "py_in p (PDict kvs) = Inr (map_of kvs p \<noteq> None)"
  by (simp add: py_in_def map_of_eq_None_iff)

text \<open>
  On a dictionary the loops cannot fail. The inner loop finds exactly the later names whose
  key with \<open>a\<close> is in the dictionary.
\<close>

lemma from_dict:
  "\<exists>hs. interactions_from ucd (PDict kvs) a bs = Inr hs \<and>
     set hs = {(a, b, v) | b v. b \<in> set bs \<and> map_of kvs (pair_key ucd a b) = Some v}"
proof (induction bs)
  case Nil
  then show ?case by simp
next
  case (Cons b bs)
  then obtain hs where hs: "interactions_from ucd (PDict kvs) a bs = Inr hs"
    "set hs = {(a, b, v) | b v. b \<in> set bs \<and> map_of kvs (pair_key ucd a b) = Some v}"
    by blast
  show ?case
  proof (cases "map_of kvs (pair_key ucd a b)")
    case None
    with hs show ?thesis by (auto simp add: py_in_dict)
  next
    case (Some v)
    with hs show ?thesis by (auto simp add: py_in_dict py_getitem_def)
  qed
qed

text \<open>
  Up to the order inside a pair, the pairs found are the pairs of different names of the
  list, and the names that stand in it twice, whose key is in the dictionary.
\<close>

lemma among_dict:
  "\<exists>hs. interactions_among ucd (PDict kvs) xs = Inr hs \<and>
     (\<forall>a b v. ((a, b, v) \<in> set hs \<or> (b, a, v) \<in> set hs) \<longleftrightarrow>
        (map_of kvs (pair_key ucd a b) = Some v \<and>
         (if a = b then 2 \<le> count_list xs a else a \<in> set xs \<and> b \<in> set xs)))"
proof (induction xs)
  case Nil
  then show ?case by simp
next
  case (Cons x xs)
  then obtain hs where hs: "interactions_among ucd (PDict kvs) xs = Inr hs"
    "\<And>a b v. ((a, b, v) \<in> set hs \<or> (b, a, v) \<in> set hs) \<longleftrightarrow>
        (map_of kvs (pair_key ucd a b) = Some v \<and>
         (if a = b then 2 \<le> count_list xs a else a \<in> set xs \<and> b \<in> set xs))"
    by blast
  obtain h where h: "interactions_from ucd (PDict kvs) x xs = Inr h"
    "set h = {(x, b, v) | b v. b \<in> set xs \<and> map_of kvs (pair_key ucd x b) = Some v}"
    using from_dict by blast
  have res: "interactions_among ucd (PDict kvs) (x # xs) = Inr (h @ hs)"
    using h hs by simp
  have "((a, b, v) \<in> set (h @ hs) \<or> (b, a, v) \<in> set (h @ hs)) \<longleftrightarrow>
        (map_of kvs (pair_key ucd a b) = Some v \<and>
         (if a = b then 2 \<le> count_list (x # xs) a
          else a \<in> set (x # xs) \<and> b \<in> set (x # xs)))"
    for a b v
  proof -
    have "((a, b, v) \<in> set (h @ hs) \<or> (b, a, v) \<in> set (h @ hs)) \<longleftrightarrow>
      ((a, b, v) \<in> set h \<or> (b, a, v) \<in> set h)
      \<or> ((a, b, v) \<in> set hs \<or> (b, a, v) \<in> set hs)"
      by auto
    also have "\<dots> \<longleftrightarrow>
      (map_of kvs (pair_key ucd a b) = Some v
         \<and> ((a = x \<and> b \<in> set xs) \<or> (b = x \<and> a \<in> set xs)))
      \<or> (map_of kvs (pair_key ucd a b) = Some v \<and>
         (if a = b then 2 \<le> count_list xs a else a \<in> set xs \<and> b \<in> set xs))"
      unfolding hs(2) h(2) using pair_key_sym [of ucd a b] by auto
    also have "\<dots> \<longleftrightarrow> (map_of kvs (pair_key ucd a b) = Some v \<and>
         (if a = b then 2 \<le> count_list (x # xs) a
          else a \<in> set (x # xs) \<and> b \<in> set (x # xs)))"
    proof -
      have "a \<in> set xs \<longleftrightarrow> 1 \<le> count_list xs a"
        using count_list_0_iff [of xs a] by auto
      then show ?thesis by auto
    qed
    finally show ?thesis .
  qed
  with res show ?case by blast
qed

lemma found_pairs_permutation:
  assumes "mset xs = mset ys"
  shows "\<exists>hx hy. interactions_among ucd (PDict kvs) xs = Inr hx
           \<and> interactions_among ucd (PDict kvs) ys = Inr hy
           \<and> (\<forall>a b v. ((a, b, v) \<in> set hx \<or> (b, a, v) \<in> set hx) \<longleftrightarrow>
                        ((a, b, v) \<in> set hy \<or> (b, a, v) \<in> set hy))"
proof -
  have c: "count_list xs a = count_list ys a" for a
    using assms by (metis count_mset)
  have s: "set xs = set ys"
    using assms by (rule mset_eq_setD)
  obtain hx where hx: "interactions_among ucd (PDict kvs) xs = Inr hx"
    "\<And>a b v. ((a, b, v) \<in> set hx \<or> (b, a, v) \<in> set hx) \<longleftrightarrow>
        (map_of kvs (pair_key ucd a b) = Some v \<and>
         (if a = b then 2 \<le> count_list xs a else a \<in> set xs \<and> b \<in> set xs))"
    using among_dict [of ucd kvs xs] by blast
  obtain hy where hy: "interactions_among ucd (PDict kvs) ys = Inr hy"
    "\<And>a b v. ((a, b, v) \<in> set hy \<or> (b, a, v) \<in> set hy) \<longleftrightarrow>
        (map_of kvs (pair_key ucd a b) = Some v \<and>
         (if a = b then 2 \<le> count_list ys a else a \<in> set ys \<and> b \<in> set ys))"
    using among_dict [of ucd kvs ys] by blast
  have "((a, b, v) \<in> set hx \<or> (b, a, v) \<in> set hx) \<longleftrightarrow>
        ((a, b, v) \<in> set hy \<or> (b, a, v) \<in> set hy)" for a b v
    unfolding hx(2) hy(2) c s ..
  with hx(1) hy(1) show ?thesis by blast
qed

lemma short_list: "length xs \<le> 1 \<Longrightarrow> interactions_among ucd t xs = Inr []"
  by (cases xs; cases "tl xs") auto

lemma test_interactions:
  "test_files drug_interactions_json
   = Content (JObj [(str ''drug_a,drug_b'', JStr (str ''Increased risk of toxicity''))])"
  by (simp add: test_files_def therapeutic_ranges_json_def drug_interactions_json_def str_def)

text \<open>
  Claim C5. The key of two names does not depend on their order. For every interaction
  table (a dictionary, whatever its keys) and every two lists that are permutations of
  each other, the loops fail on neither list and find the same unordered pairs of names,
  each with the same text. For every file that loads, a list of 0 or 1 drugs returns the
  empty list.
\<close>

theorem interaction_pairs_symmetric:
  "pair_key ucd a b = pair_key ucd b a
   \<and> (mset xs = mset ys \<longrightarrow>
        (\<exists>hx hy. interactions_among ucd (PDict kvs) xs = Inr hx
           \<and> interactions_among ucd (PDict kvs) ys = Inr hy
           \<and> (\<forall>a b v. ((a, b, v) \<in> set hx \<or> (b, a, v) \<in> set hx) \<longleftrightarrow>
                        ((a, b, v) \<in> set hy \<or> (b, a, v) \<in> set hy))))
   \<and> (fs db = Content (JObj tbl) \<and> mset xs = mset ys \<longrightarrow>
        (\<exists>hx hy. check_interactions ucd fmt xs db fs = Inr (map (describe fmt) hx)
           \<and> check_interactions ucd fmt ys db fs = Inr (map (describe fmt) hy)
           \<and> (\<forall>a b v. ((a, b, v) \<in> set hx \<or> (b, a, v) \<in> set hx) \<longleftrightarrow>
                        ((a, b, v) \<in> set hy \<or> (b, a, v) \<in> set hy))))
   \<and> (fs db = Content j \<and> length xs \<le> 1 \<longrightarrow> check_interactions ucd fmt xs db fs = Inr [])"
proof -
  have loaded: "\<exists>hx hy. check_interactions ucd fmt xs db fs = Inr (map (describe fmt) hx)
           \<and> check_interactions ucd fmt ys db fs = Inr (map (describe fmt) hy)
           \<and> (\<forall>a b v. ((a, b, v) \<in> set hx \<or> (b, a, v) \<in> set hx) \<longleftrightarrow>
                        ((a, b, v) \<in> set hy \<or> (b, a, v) \<in> set hy))"
    if f: "fs db = Content (JObj tbl)" and p: "mset xs = mset ys"
  proof -
    let ?kvs = "map (\<lambda>kv. (PStr (fst kv), of_json (snd kv))) tbl"
    obtain hx hy where h: "interactions_among ucd (PDict ?kvs) xs = Inr hx"
      "interactions_among ucd (PDict ?kvs) ys = Inr hy"
      "\<forall>a b v. ((a, b, v) \<in> set hx \<or> (b, a, v) \<in> set hx) \<longleftrightarrow>
                        ((a, b, v) \<in> set hy \<or> (b, a, v) \<in> set hy)"
      using found_pairs_permutation [OF p, of ucd ?kvs] by blast
    have "check_interactions ucd fmt xs db fs = Inr (map (describe fmt) hx)"
      "check_interactions ucd fmt ys db fs = Inr (map (describe fmt) hy)"
      using f h(1,2) by (simp_all add: check_interactions_def load_db_def)
    with h(3) show ?thesis by blast
  qed
  have short: "check_interactions ucd fmt xs db fs = Inr []"
    if "fs db = Content j" "length xs \<le> 1"
    using that by (simp add: check_interactions_def load_db_def short_list)
  show ?thesis
    using pair_key_sym [of ucd a b] found_pairs_permutation [of xs ys ucd kvs] loaded short
    by blast
qed

theorem interaction_pairs_symmetric_witness:
  "\<forall>ucd.
     mset [str ''Drug_B'', str ''aspirin'', str ''drug_a'']
       = mset [str ''drug_a'', str ''Drug_B'', str ''aspirin'']
     \<and> pair_key ucd (str ''Drug_B'') (str ''drug_a'')
         = pair_key ucd (str ''drug_a'') (str ''Drug_B'')
     \<and> interactions_among ucd
          (PDict [(PTuple [PStr (str ''drug_a''), PStr (str ''drug_b'')],
                   PStr (str ''Increased risk of toxicity''))])
          [str ''Drug_B'', str ''aspirin'', str ''drug_a'']
         = Inr [(str ''Drug_B'', str ''drug_a'', PStr (str ''Increased risk of toxicity''))]
     \<and> interactions_among ucd
          (PDict [(PTuple [PStr (str ''drug_a''), PStr (str ''drug_b'')],
                   PStr (str ''Increased risk of toxicity''))])
          [str ''drug_a'', str ''Drug_B'', str ''aspirin'']
         = Inr [(str ''drug_a'', str ''Drug_B'', PStr (str ''Increased risk of toxicity''))]
     \<and> test_files drug_interactions_json
         = Content (JObj [(str ''drug_a,drug_b'', JStr (str ''Increased risk of toxicity''))])
     \<and> length [str ''drug_a''] \<le> 1
     \<and> check_interactions ucd (\<lambda>v. []) [str ''drug_a''] drug_interactions_json test_files
         = Inr []
     \<and> check_interactions ucd (\<lambda>v. []) [] drug_interactions_json test_files = Inr []"
proof
  fix ucd :: "pystr \<Rightarrow> pystr"
  let ?kvs = "[(PTuple [PStr (str ''drug_a''), PStr (str ''drug_b'')],
                PStr (str ''Increased risk of toxicity''))]"
  let ?xs = "[str ''Drug_B'', str ''aspirin'', str ''drug_a'']"
  let ?ys = "[str ''drug_a'', str ''Drug_B'', str ''aspirin'']"
  have p: "mset ?xs = mset ?ys"
    by simp
  note f = test_interactions
  have hx: "interactions_among ucd (PDict ?kvs) ?xs
            = Inr [(str ''Drug_B'', str ''drug_a'', PStr (str ''Increased risk of toxicity''))]"
    by code_simp
  have hy: "interactions_among ucd (PDict ?kvs) ?ys
            = Inr [(str ''drug_a'', str ''Drug_B'', PStr (str ''Increased risk of toxicity''))]"
    by code_simp
  note t = interaction_pairs_symmetric [where ucd = ucd and fs = test_files
      and db = drug_interactions_json and fmt = "\<lambda>v. []" and kvs = ?kvs
      and a = "str ''Drug_B''" and b = "str ''drug_a''"]
  have k: "pair_key ucd (str ''Drug_B'') (str ''drug_a'')
           = pair_key ucd (str ''drug_a'') (str ''Drug_B'')"
    using t by blast
  have s1: "check_interactions ucd (\<lambda>v. []) [str ''drug_a''] drug_interactions_json test_files
            = Inr []"
    using t [where xs = "[str ''drug_a'']" and ys = "[str ''drug_a'']"] f by simp
  have s0: "check_interactions ucd (\<lambda>v. []) [] drug_interactions_json test_files = Inr []"
    using t [where xs = "[]" and ys = "[]"] f by simp
  have "\<exists>hx hy. interactions_among ucd (PDict ?kvs) ?xs = Inr hx
           \<and> interactions_among ucd (PDict ?kvs) ?ys = Inr hy
           \<and> (\<forall>a b v. ((a, b, v) \<in> set hx \<or> (b, a, v) \<in> set hx) \<longleftrightarrow>
                        ((a, b, v) \<in> set hy \<or> (b, a, v) \<in> set hy))"
    using t [where xs = ?xs and ys = ?ys] p by blast
  show "mset ?xs = mset ?ys
     \<and> pair_key ucd (str ''Drug_B'') (str ''drug_a'')
         = pair_key ucd (str ''drug_a'') (str ''Drug_B'')
     \<and> interactions_among ucd (PDict ?kvs) ?xs
         = Inr [(str ''Drug_B'', str ''drug_a'', PStr (str ''Increased risk of toxicity''))]
     \<and> interactions_among ucd (PDict ?kvs) ?ys
         = Inr [(str ''drug_a'', str ''Drug_B'', PStr (str ''Increased risk of toxicity''))]
     \<and> test_files drug_interactions_json
         = Content (JObj [(str ''drug_a,drug_b'', JStr (str ''Increased risk of toxicity''))])
     \<and> length [str ''drug_a''] \<le> 1
     \<and> check_interactions ucd (\<lambda>v. []) [str ''drug_a''] drug_interactions_json test_files
         = Inr []
     \<and> check_interactions ucd (\<lambda>v. []) [] drug_interactions_json test_files = Inr []"
    using p k hx hy f s1 s0 by simp
qed

text \<open>
  What \<^verbatim>\<open>json.load\<close> returns holds no tuple, so no key and no element of it is equal to
  the tuple the loops look up.
\<close>

lemma of_json_not_tuple: "of_json j \<noteq> PTuple ps"
  by (cases j) auto

lemma py_in_loaded:
  "py_in (PTuple ps) (of_json j) =
     (case j of JObj kvs \<Rightarrow> Inr False | JArr xs \<Rightarrow> Inr False | _ \<Rightarrow> Inl TypeError)"
  using of_json_not_tuple [of _ ps, symmetric]
  by (cases j) (auto simp add: py_in_def)

lemma from_loaded:
  "interactions_from ucd (of_json j) a bs =
     (if bs = [] then Inr []
      else (case j of JObj kvs \<Rightarrow> Inr [] | JArr xs \<Rightarrow> Inr [] | _ \<Rightarrow> Inl TypeError))"
proof (induction bs)
  case Nil
  show ?case by simp
next
  case (Cons b bs)
  have "py_in (pair_key ucd a b) (of_json j) =
     (case j of JObj kvs \<Rightarrow> Inr False | JArr xs \<Rightarrow> Inr False | _ \<Rightarrow> Inl TypeError)"
    unfolding pair_key_def by (rule py_in_loaded)
  with Cons show ?case
    by (cases j) (simp_all del: of_json.simps)
qed

lemma among_loaded:
  "interactions_among ucd (of_json j) xs =
     (if length xs < 2 then Inr []
      else (case j of JObj kvs \<Rightarrow> Inr [] | JArr xs \<Rightarrow> Inr [] | _ \<Rightarrow> Inl TypeError))"
proof (induction xs)
  case Nil
  show ?case by simp
next
  case (Cons x xs)
  then show ?case
    by (cases j; cases "xs = []")
      (simp_all add: from_loaded less_Suc_eq_0_disj del: of_json.simps interactions_from.simps)
qed

text \<open>Whatever the file holds and whatever the list, no description is ever returned.\<close>

lemma check_interactions_reports_nothing:
  "check_interactions ucd fmt drug_list db_file fs = Inr ds \<Longrightarrow> ds = []"
  by (auto simp add: check_interactions_def load_db_def among_loaded
      split: file_state.splits json.splits if_splits simp del: of_json.simps)

text \<open>
  Claim C1, at the table of the module's own test. The test writes
  \<^verbatim>\<open>{"drug_a,drug_b": "Increased risk of toxicity"}\<close> and expects the one description
  \<^verbatim>\<open>"Interaction between drug_a and drug_b: Increased risk of toxicity"\<close>. The key the loops
  look up is the tuple \<^verbatim>\<open>("drug_a", "drug_b")\<close>, the only key of the loaded dictionary is the
  string \<^verbatim>\<open>"drug_a,drug_b"\<close>, the membership test is false and the result is the empty list.
  The same list is reported once by the loops on a dictionary whose key is the tuple.
\<close>

theorem test_table_reports_nothing:
  "check_interactions ucd fmt [str ''drug_a'', str ''drug_b''] drug_interactions_json test_files
     = Inr []
   \<and> pair_key ucd (str ''drug_a'') (str ''drug_b'')
       = PTuple [PStr (str ''drug_a''), PStr (str ''drug_b'')]
   \<and> py_in (PTuple [PStr (str ''drug_a''), PStr (str ''drug_b'')])
        (of_json (JObj [(str ''drug_a,drug_b'', JStr (str ''Increased risk of toxicity''))]))
       = Inr False
   \<and> map (describe fmt)
        [(str ''drug_a'', str ''drug_b'', PStr (str ''Increased risk of toxicity''))]
       = [str ''Interaction between drug_a and drug_b: Increased risk of toxicity'']
   \<and> interactions_among ucd
        (PDict [(PTuple [PStr (str ''drug_a''), PStr (str ''drug_b'')],
                 PStr (str ''Increased risk of toxicity''))])
        [str ''drug_a'', str ''drug_b'']
       = Inr [(str ''drug_a'', str ''drug_b'', PStr (str ''Increased risk of toxicity''))]"
  by code_simp

lemma twice_in_list:
  assumes "i < j" "j < length xs" "xs ! i = n" "xs ! j = n"
  shows "2 \<le> count_list xs n"
proof -
  have x: "xs = take j xs @ xs ! j # drop (Suc j) xs"
    using assms(2) by (rule id_take_nth_drop)
  have "take j xs ! i = n"
    using assms(1,3) by simp
  moreover have "i < length (take j xs)"
    using assms(1,2) by simp
  ultimately have "n \<in> set (take j xs)"
    by (metis nth_mem)
  then have "1 \<le> count_list (take j xs) n"
    using count_list_0_iff [of "take j xs" n] by (cases "count_list (take j xs) n") auto
  moreover have "count_list xs n
      = count_list (take j xs) n + count_list (xs ! j # drop (Suc j) xs) n"
    by (subst x) (simp only: count_list_append)
  ultimately show ?thesis
    using assms(4) by simp
qed

text \<open>
  Claim C10. The loops pair positions, not names: for a name \<open>n\<close> that stands at two
  positions \<open>i < j\<close> of the list, the key looked up is the pair of the lowercased name with
  itself, and on a table that holds this key with the value \<open>v\<close> the loops report the name
  with itself and \<open>v\<close>, so the list of descriptions holds the description of the duplicate.
  A name that stands in the list at most once is never reported with itself, whatever the
  table.
\<close>

theorem duplicate_names_paired:
  "pair_key ucd n n = PTuple [PStr (lower ucd n), PStr (lower ucd n)]
   \<and> (i < j \<and> j < length xs \<and> xs ! i = n \<and> xs ! j = n
        \<and> map_of kvs (pair_key ucd n n) = Some v \<longrightarrow>
        (\<exists>hs. interactions_among ucd (PDict kvs) xs = Inr hs
           \<and> (n, n, v) \<in> set hs
           \<and> describe fmt (n, n, v) \<in> set (map (describe fmt) hs)))
   \<and> (count_list xs n \<le> 1 \<longrightarrow>
        (\<exists>hs. interactions_among ucd (PDict kvs) xs = Inr hs
           \<and> (\<forall>w. (n, n, w) \<notin> set hs)))"
proof -
  obtain hs where hs: "interactions_among ucd (PDict kvs) xs = Inr hs"
    "\<And>a b v. ((a, b, v) \<in> set hs \<or> (b, a, v) \<in> set hs) \<longleftrightarrow>
        (map_of kvs (pair_key ucd a b) = Some v \<and>
         (if a = b then 2 \<le> count_list xs a else a \<in> set xs \<and> b \<in> set xs))"
    using among_dict [of ucd kvs xs] by blast
  have self: "(n, n, w) \<in> set hs \<longleftrightarrow>
      map_of kvs (pair_key ucd n n) = Some w \<and> 2 \<le> count_list xs n" for w
    using hs(2) [of n n w] by simp
  have found: "(n, n, v) \<in> set hs \<and> describe fmt (n, n, v) \<in> set (map (describe fmt) hs)"
    if "i < j" "j < length xs" "xs ! i = n" "xs ! j = n"
      "map_of kvs (pair_key ucd n n) = Some v"
  proof -
    from that(1-4) have "2 \<le> count_list xs n" by (rule twice_in_list)
    with that(5) have "(n, n, v) \<in> set hs" by (simp add: self)
    then show ?thesis by simp
  qed
  have once: "(n, n, w) \<notin> set hs" if "count_list xs n \<le> 1" for w
    using that by (simp add: self)
  from hs(1) found once pair_key_self [of ucd n] show ?thesis
    by blast
qed

theorem duplicate_names_paired_witness:
  "\<forall>ucd.
     (0 :: nat) < 1 \<and> 1 < length [str ''aspirin'', str ''aspirin'']
     \<and> [str ''aspirin'', str ''aspirin''] ! 0 = str ''aspirin''
     \<and> [str ''aspirin'', str ''aspirin''] ! 1 = str ''aspirin''
     \<and> pair_key ucd (str ''aspirin'') (str ''aspirin'')
         = PTuple [PStr (str ''aspirin''), PStr (str ''aspirin'')]
     \<and> map_of [(PTuple [PStr (str ''aspirin''), PStr (str ''aspirin'')],
                 PStr (str ''Duplicate therapy''))]
          (pair_key ucd (str ''aspirin'') (str ''aspirin''))
         = Some (PStr (str ''Duplicate therapy''))
     \<and> interactions_among ucd
          (PDict [(PTuple [PStr (str ''aspirin''), PStr (str ''aspirin'')],
                   PStr (str ''Duplicate therapy''))])
          [str ''aspirin'', str ''aspirin'']
         = Inr [(str ''aspirin'', str ''aspirin'', PStr (str ''Duplicate therapy''))]
     \<and> (\<exists>hs. interactions_among ucd
          (PDict [(PTuple [PStr (str ''aspirin''), PStr (str ''aspirin'')],
                   PStr (str ''Duplicate therapy''))])
          [str ''aspirin'', str ''aspirin''] = Inr hs
          \<and> describe (\<lambda>v. []) (str ''aspirin'', str ''aspirin'', PStr (str ''Duplicate therapy''))
              \<in> set (map (describe (\<lambda>v. [])) hs))
     \<and> describe (\<lambda>v. []) (str ''aspirin'', str ''aspirin'', PStr (str ''Duplicate therapy''))
         = str ''Interaction between aspirin and aspirin: Duplicate therapy''
     \<and> count_list [str ''aspirin'', str ''ibuprofen''] (str ''aspirin'') \<le> 1
     \<and> (\<exists>hs. interactions_among ucd
          (PDict [(PTuple [PStr (str ''aspirin''), PStr (str ''aspirin'')],
                   PStr (str ''Duplicate therapy''))])
          [str ''aspirin'', str ''ibuprofen''] = Inr hs
          \<and> (\<forall>w. (str ''aspirin'', str ''aspirin'', w) \<notin> set hs))
     \<and> interactions_among ucd
          (PDict [(PTuple [PStr (str ''aspirin''), PStr (str ''aspirin'')],
                   PStr (str ''Duplicate therapy''))])
          [str ''aspirin'', str ''ibuprofen'']
         = Inr []"
proof
  fix ucd :: "pystr \<Rightarrow> pystr"
  let ?a = "str ''aspirin''"
  let ?v = "PStr (str ''Duplicate therapy'')"
  let ?kvs = "[(PTuple [PStr ?a, PStr ?a], ?v)]"
  have la: "lower ucd ?a = ?a"
    by (simp add: lower_def ascii_def str_def lower_ascii_def)
  have idx: "(0 :: nat) < 1" "1 < length [?a, ?a]" "[?a, ?a] ! 0 = ?a" "[?a, ?a] ! 1 = ?a"
    by simp_all
  note t = duplicate_names_paired [where ucd = ucd and n = ?a and kvs = ?kvs and v = ?v
      and fmt = "\<lambda>v. []"]
  have k: "pair_key ucd ?a ?a = PTuple [PStr ?a, PStr ?a]"
    using t [where xs = "[?a, ?a]" and i = 0 and j = 1] la by simp
  have m: "map_of ?kvs (pair_key ucd ?a ?a) = Some ?v"
    unfolding k by simp
  have e: "\<exists>hs. interactions_among ucd (PDict ?kvs) [?a, ?a] = Inr hs
          \<and> describe (\<lambda>v. []) (?a, ?a, ?v) \<in> set (map (describe (\<lambda>v. [])) hs)"
    using t [where xs = "[?a, ?a]" and i = 0 and j = 1] idx m by blast
  have r: "interactions_among ucd (PDict ?kvs) [?a, ?a] = Inr [(?a, ?a, ?v)]"
    by code_simp
  have d: "describe (\<lambda>v. []) (?a, ?a, ?v)
           = str ''Interaction between aspirin and aspirin: Duplicate therapy''"
    by code_simp
  have c: "count_list [?a, str ''ibuprofen''] ?a \<le> 1"
    by (simp add: str_def)
  have o: "interactions_among ucd (PDict ?kvs) [?a, str ''ibuprofen''] = Inr []"
    by code_simp
  have u: "\<exists>hs. interactions_among ucd (PDict ?kvs) [?a, str ''ibuprofen''] = Inr hs
          \<and> (\<forall>w. (?a, ?a, w) \<notin> set hs)"
    using t [where xs = "[?a, str ''ibuprofen'']" and i = 0 and j = 1] c by blast
  from idx k m e r d c o u
  show "(0 :: nat) < 1 \<and> 1 < length [?a, ?a]
     \<and> [?a, ?a] ! 0 = ?a
     \<and> [?a, ?a] ! 1 = ?a
     \<and> pair_key ucd ?a ?a = PTuple [PStr ?a, PStr ?a]
     \<and> map_of ?kvs (pair_key ucd ?a ?a) = Some ?v
     \<and> interactions_among ucd (PDict ?kvs) [?a, ?a] = Inr [(?a, ?a, ?v)]
     \<and> (\<exists>hs. interactions_among ucd (PDict ?kvs) [?a, ?a] = Inr hs
          \<and> describe (\<lambda>v. []) (?a, ?a, ?v) \<in> set (map (describe (\<lambda>v. [])) hs))
     \<and> describe (\<lambda>v. []) (?a, ?a, ?v)
         = str ''Interaction between aspirin and aspirin: Duplicate therapy''
     \<and> count_list [?a, str ''ibuprofen''] ?a \<le> 1
     \<and> (\<exists>hs. interactions_among ucd (PDict ?kvs) [?a, str ''ibuprofen''] = Inr hs
          \<and> (\<forall>w. (?a, ?a, w) \<notin> set hs))
     \<and> interactions_among ucd (PDict ?kvs) [?a, str ''ibuprofen''] = Inr []"
    by blast
qed

end
